theory Spec2Isabelle
  imports Complex_Main "HOL-Library.AList" "HOL-Library.Sublist"
begin

section \<open>Python values\<close>

text \<open>
  The service passes untyped Python data between its stages. A cell of the product
  catalog is a scalar; a context document and a model output are whatever
  \<^verbatim>\<open>json.loads\<close> returned. Floats are kept abstract (the type parameter \<open>'f\<close>);
  the three float operations the code uses (NaN test, truthiness, \<^verbatim>\<open>round(x, 2)\<close>) are
  parameters. A \<^verbatim>\<open>dict\<close> is an association list in insertion order, read with
  \<^const>\<open>map_of\<close> and written with \<^const>\<open>AList.update\<close> (an existing key keeps its
  position, a new key goes to the end, as in Python).
\<close>

datatype 'f scalar = SNone | SBool bool | SInt int | SFloat 'f | SStr string

datatype 'f pyval =
    PNone
  | PBool bool
  | PInt int
  | PFloat 'f
  | PStr string
  | PList "'f pyval list"
  | PDict "(string \<times> 'f pyval) list"

type_synonym 'f pydict = "(string \<times> 'f pyval) list"

datatype py_exception =
    ValueError string
  | FileNotFoundError string
  | KeyError string
  | TypeError
  | AttributeError

definition and_then :: "'e + 'a \<Rightarrow> ('a \<Rightarrow> 'e + 'b) \<Rightarrow> 'e + 'b" where
  "and_then m f = (case m of Inl e \<Rightarrow> Inl e | Inr x \<Rightarrow> f x)"

definition has_key :: "('k \<times> 'v) list \<Rightarrow> 'k \<Rightarrow> bool" where
  "has_key d k = (map_of d k \<noteq> None)"

text \<open>\<^verbatim>\<open>d.get(k, default)\<close> on a dict.\<close>

definition dict_get :: "('k \<times> 'v) list \<Rightarrow> 'k \<Rightarrow> 'v \<Rightarrow> 'v" where
  "dict_get d k dflt = (case map_of d k of None \<Rightarrow> dflt | Some v \<Rightarrow> v)"

text \<open>\<^verbatim>\<open>key in obj\<close> for a string key: key membership on a dict, element membership on
  a list, substring test on a string, \<^verbatim>\<open>TypeError\<close> on anything else.\<close>

fun py_contains :: "string \<Rightarrow> 'f pyval \<Rightarrow> py_exception + bool" where
  "py_contains k (PDict d) = Inr (has_key d k)"
| "py_contains k (PList xs) = Inr (PStr k \<in> set xs)"
| "py_contains k (PStr s) = Inr (sublist k s)"
| "py_contains k PNone = Inl TypeError"
| "py_contains k (PBool b) = Inl TypeError"
| "py_contains k (PInt i) = Inl TypeError"
| "py_contains k (PFloat x) = Inl TypeError"

text \<open>\<^verbatim>\<open>obj[key]\<close> for a string key.\<close>

fun py_getitem :: "'f pyval \<Rightarrow> string \<Rightarrow> py_exception + 'f pyval" where
  "py_getitem (PDict d) k = (case map_of d k of None \<Rightarrow> Inl (KeyError k) | Some v \<Rightarrow> Inr v)"
| "py_getitem PNone k = Inl TypeError"
| "py_getitem (PBool b) k = Inl TypeError"
| "py_getitem (PInt i) k = Inl TypeError"
| "py_getitem (PFloat x) k = Inl TypeError"
| "py_getitem (PStr s) k = Inl TypeError"
| "py_getitem (PList xs) k = Inl TypeError"

text \<open>The elements a \<^verbatim>\<open>for\<close> loop visits: the items of a list, the keys of a dict, the
  characters of a string; the other values are not iterable.\<close>

fun py_iter :: "'f pyval \<Rightarrow> py_exception + 'f pyval list" where
  "py_iter (PList xs) = Inr xs"
| "py_iter (PDict d) = Inr (map (\<lambda>kv. PStr (fst kv)) d)"
| "py_iter (PStr s) = Inr (map (\<lambda>c. PStr [c]) s)"
| "py_iter PNone = Inl TypeError"
| "py_iter (PBool b) = Inl TypeError"
| "py_iter (PInt i) = Inl TypeError"
| "py_iter (PFloat x) = Inl TypeError"

text \<open>\<^verbatim>\<open>obj.get(key, default)\<close>: only a dict has the method.\<close>

fun py_get :: "'f pyval \<Rightarrow> string \<Rightarrow> 'f pyval \<Rightarrow> py_exception + 'f pyval" where
  "py_get (PDict d) k dflt = Inr (dict_get d k dflt)"
| "py_get PNone k dflt = Inl AttributeError"
| "py_get (PBool b) k dflt = Inl AttributeError"
| "py_get (PInt i) k dflt = Inl AttributeError"
| "py_get (PFloat x) k dflt = Inl AttributeError"
| "py_get (PStr s) k dflt = Inl AttributeError"
| "py_get (PList xs) k dflt = Inl AttributeError"

text \<open>Truthiness of a catalog cell (\<^verbatim>\<open>if not image_gcs_uri\<close>); a NaN is truthy.\<close>

fun truthy :: "('f \<Rightarrow> bool) \<Rightarrow> 'f scalar \<Rightarrow> bool" where
  "truthy is_zero SNone = False"
| "truthy is_zero (SBool b) = b"
| "truthy is_zero (SInt i) = (i \<noteq> 0)"
| "truthy is_zero (SFloat x) = (\<not> is_zero x)"
| "truthy is_zero (SStr s) = (s \<noteq> [])"

section \<open>context.py\<close>

type_synonym 'f product_specs = "(string \<times> 'f scalar) list"
type_synonym 'f catalog = "(string \<times> 'f product_specs) list"

text \<open>The two loaders read cloud storage and turn every failure into a
  \<^verbatim>\<open>FileNotFoundError\<close>. The storage read is a parameter: \<open>Inl m\<close> is a failed read,
  \<open>m\<close> the message of the exception the loader raises for it.\<close>

definition load_spec_catalog :: "string + 'f catalog \<Rightarrow> py_exception + 'f catalog" where
  "load_spec_catalog blob =
     (case blob of Inl m \<Rightarrow> Inl (FileNotFoundError m) | Inr spec_catalog \<Rightarrow> Inr spec_catalog)"

definition get_sku_specs :: "string \<Rightarrow> 'f catalog \<Rightarrow> py_exception + 'f product_specs" where
  "get_sku_specs sku spec_catalog =
     (case map_of spec_catalog sku of
        None \<Rightarrow> Inl (ValueError (''SKU '' @ [CHR 0x27] @ sku @ [CHR 0x27]
                                 @ '' not found in the specification catalog.''))
      | Some specs \<Rightarrow> Inr specs)"

definition load_context_file ::
  "(string \<Rightarrow> string + 'f pyval) \<Rightarrow> string \<Rightarrow> py_exception + 'f pyval" where
  "load_context_file gcs context_id =
     (case gcs context_id of Inl m \<Rightarrow> Inl (FileNotFoundError m) | Inr content \<Rightarrow> Inr content)"

text \<open>\<^verbatim>\<open>pd.notna\<close> on a scalar: \<^verbatim>\<open>None\<close> and NaN are the missing values.\<close>

fun pd_notna :: "('f \<Rightarrow> bool) \<Rightarrow> 'f scalar \<Rightarrow> bool" where
  "pd_notna isnan SNone = False"
| "pd_notna isnan (SFloat x) = (\<not> isnan x)"
| "pd_notna isnan (SBool b) = True"
| "pd_notna isnan (SInt i) = True"
| "pd_notna isnan (SStr s) = True"

text \<open>The context card is a dict with the fixed keys \<^verbatim>\<open>product_attributes\<close> and
  \<^verbatim>\<open>rules\<close> and the optional key \<^verbatim>\<open>brand_voice\<close>.\<close>

record 'f context_card =
  product_attributes :: "'f product_specs"
  rules :: "'f pyval list"
  brand_voice :: "'f pyval option"

text \<open>The inner loop: one dict of three keys is appended per rule.\<close>

fun append_rules :: "'f pyval list \<Rightarrow> 'f pyval list \<Rightarrow> py_exception + 'f pyval list" where
  "append_rules acc [] = Inr acc"
| "append_rules acc (rule # rest) =
     (case py_get rule ''id'' PNone of
        Inl e \<Rightarrow> Inl e
      | Inr rid \<Rightarrow>
          (case py_get rule ''text'' PNone of
             Inl e \<Rightarrow> Inl e
           | Inr rtext \<Rightarrow>
               (case py_get rule ''mandatory'' (PBool False) of
                  Inl e \<Rightarrow> Inl e
                | Inr rmand \<Rightarrow>
                    append_rules
                      (acc @ [PDict [(''id'', rid), (''text'', rtext), (''mandatory'', rmand)]])
                      rest)))"

text \<open>The body of the outer loop, for one item of \<^verbatim>\<open>contexts.items()\<close>.\<close>

definition compose_step ::
  "'f context_card \<Rightarrow> string \<times> 'f pyval \<Rightarrow> py_exception + 'f context_card" where
  "compose_step ccard item =
     (let content = snd item in
      and_then (py_contains ''brand_voice'' content) (\<lambda>has_voice.
      and_then (if has_voice
                then and_then (py_getitem content ''brand_voice'')
                       (\<lambda>v. Inr (ccard\<lparr>brand_voice := Some v\<rparr>))
                else Inr ccard) (\<lambda>ccard1.
      and_then (py_contains ''rules'' content) (\<lambda>has_rules.
        if has_rules
        then and_then (py_getitem content ''rules'') (\<lambda>rule_list.
             and_then (py_iter rule_list) (\<lambda>rs.
             and_then (append_rules (rules ccard1) rs) (\<lambda>rules'.
               Inr (ccard1\<lparr>rules := rules'\<rparr>))))
        else Inr ccard1))))"

fun compose_loop ::
  "'f context_card \<Rightarrow> (string \<times> 'f pyval) list \<Rightarrow> py_exception + 'f context_card" where
  "compose_loop ccard [] = Inr ccard"
| "compose_loop ccard (item # rest) =
     (case compose_step ccard item of Inl e \<Rightarrow> Inl e | Inr ccard2 \<Rightarrow> compose_loop ccard2 rest)"

definition compose_context_card ::
  "('f \<Rightarrow> bool) \<Rightarrow> 'f product_specs \<Rightarrow> (string \<times> 'f pyval) list
     \<Rightarrow> py_exception + 'f context_card" where
  "compose_context_card isnan product_specs contexts =
     compose_loop
       \<lparr>product_attributes = filter (\<lambda>kv. pd_notna isnan (snd kv)) product_specs,
        rules = [],
        brand_voice = None\<rparr>
       contexts"

section \<open>vertex_client.py\<close>

text \<open>What the gateway reads of the model's reply: the candidates (of the first one the
  name of its finish reason and the printed safety ratings) and the reply's text.\<close>

record candidate =
  finish_reason :: string
  safety_ratings :: string

record response =
  candidates :: "candidate list"
  response_text :: string

definition model_name :: string where
  "model_name = ''gemini-2.5-flash''"

text \<open>\<^verbatim>\<open>str.isspace\<close> on the code points below 256, and \<^verbatim>\<open>str.strip()\<close>.\<close>

definition isspace :: "char \<Rightarrow> bool" where
  "isspace c = (of_char c \<in> {9, 10, 11, 12, 13, 28, 29, 30, 31, 32, 133, 160 :: nat})"

definition strip :: "string \<Rightarrow> string" where
  "strip s = rev (dropWhile isspace (rev (dropWhile isspace s)))"

definition fence_open :: string where
  "fence_open = ''```json'' @ [CHR 0x0A]"

definition fence_close :: string where
  "fence_close = CHR 0x0A # ''```''"

text \<open>The group of \<^verbatim>\<open>(.*)\n```\<close> matched at the start of \<open>s\<close> under \<^verbatim>\<open>re.DOTALL\<close>:
  the star is greedy, so the group is the longest prefix of \<open>s\<close> that the closing
  fence follows.\<close>

fun greedy_group :: "string \<Rightarrow> string option" where
  "greedy_group [] = None"
| "greedy_group (c # cs) =
     (case greedy_group cs of
        Some g \<Rightarrow> Some (c # g)
      | None \<Rightarrow> if prefix fence_close (c # cs) then Some [] else None)"

text \<open>\<^verbatim>\<open>re.search(r"```json\n(.*)\n```", raw_text, re.DOTALL)\<close>, group 1 of the
  leftmost match.\<close>

fun re_search :: "string \<Rightarrow> string option" where
  "re_search [] = None"
| "re_search (c # cs) =
     (case (if prefix fence_open (c # cs)
            then greedy_group (drop (length fence_open) (c # cs)) else None) of
        Some g \<Rightarrow> Some g
      | None \<Rightarrow> re_search cs)"

definition extract_json_str :: "string \<Rightarrow> string" where
  "extract_json_str raw_text =
     (case re_search raw_text of Some json_str \<Rightarrow> json_str | None \<Rightarrow> raw_text)"

text \<open>\<^verbatim>\<open>parsed_response["diagnostics"] = {"model": model_name}\<close>: item assignment
  with a string key works on a dict only.\<close>

fun set_diagnostics_model :: "'f pyval \<Rightarrow> py_exception + 'f pydict" where
  "set_diagnostics_model (PDict d) =
     Inr (AList.update ''diagnostics'' (PDict [(''model'', PStr model_name)]) d)"
| "set_diagnostics_model PNone = Inl TypeError"
| "set_diagnostics_model (PBool b) = Inl TypeError"
| "set_diagnostics_model (PInt i) = Inl TypeError"
| "set_diagnostics_model (PFloat x) = Inl TypeError"
| "set_diagnostics_model (PStr s) = Inl TypeError"
| "set_diagnostics_model (PList xs) = Inl TypeError"

text \<open>The \<^verbatim>\<open>try\<close> block of \<^verbatim>\<open>query_gemini\<close>. \<^verbatim>\<open>json.loads\<close> is a parameter:
  \<open>Inl m\<close> is a \<^verbatim>\<open>JSONDecodeError\<close> with text \<open>m\<close>. The handler catches the decode
  error; a \<^verbatim>\<open>TypeError\<close> leaves the function.\<close>

definition parse_response ::
  "(string \<Rightarrow> string + 'f pyval) \<Rightarrow> response \<Rightarrow> py_exception + 'f pydict" where
  "parse_response json_loads resp =
     (case candidates resp of
        [] \<Rightarrow> Inr [(''error'', PStr ''No candidates returned from model.''),
                   (''details'', PStr ''The model response was empty.'')]
      | first # others \<Rightarrow>
          if finish_reason first \<noteq> ''STOP''
          then Inr [(''error'', PStr ''Model generation stopped prematurely.''),
                    (''details'', PStr (''Finish Reason: '' @ finish_reason first
                       @ ''. This might be due to safety settings or an issue with the input.'')),
                    (''safety_ratings'', PStr (safety_ratings first))]
          else let raw_text = response_text resp in
            if strip raw_text = []
            then Inr [(''error'', PStr ''Model returned an empty text response.''),
                      (''details'',
                       PStr ''This could be due to safety filters or a malformed prompt.'')]
            else (case json_loads (extract_json_str raw_text) of
                    Inl m \<Rightarrow> Inr [(''error'', PStr ''Failed to parse model response.''),
                                    (''details'', PStr m),
                                    (''raw_text'', PStr (response_text resp))]
                  | Inr parsed_response \<Rightarrow> set_diagnostics_model parsed_response))"

text \<open>The prompt is a fixed template filled with the card and the question, so the
  model call is a function of the image reference, the card and the question; it is a
  parameter, and may raise.\<close>

definition query_gemini ::
  "(string \<Rightarrow> string + 'f pyval)
     \<Rightarrow> ('f scalar \<Rightarrow> 'f context_card \<Rightarrow> string \<Rightarrow> py_exception + response)
     \<Rightarrow> 'f scalar \<Rightarrow> 'f context_card \<Rightarrow> string \<Rightarrow> py_exception + 'f pydict" where
  "query_gemini json_loads generate_content image_gcs_uri context_card question =
     and_then (generate_content image_gcs_uri context_card question)
       (parse_response json_loads)"

section \<open>main.py: the response schema\<close>

record 'f AnalyzeRequest =
  sku :: string
  question :: "string option"
  context_ids :: "string list"
  metadata :: "'f pydict option"

record Grounding =
  citations :: "string list"
  visual_refs :: "string list"

record Attribute =
  attr_value :: string
  attr_source :: string

record 'f Structured =
  attributes :: "(string \<times> Attribute) list"
  compliance :: "(string \<times> 'f pydict) list"

record 'f Diagnostics =
  latency :: 'f
  model :: string
  tokens :: int

record 'f AnalyzeResponse =
  answer :: string
  grounding :: Grounding
  structured :: "'f Structured"
  diagnostics :: "'f Diagnostics"

text \<open>
  Every field of the schema is declared with \<^verbatim>\<open>Field(...)\<close>, so every field is
  required. Validation reports all the errors it finds, each with the path of its
  field. A value of the field's own JSON type is accepted as it is; what the library
  does with a value of another type (coerce it or reject it) depends on the library
  and is a parameter.
\<close>

datatype loc_item = Key string | Index nat

datatype error_kind = Missing | WrongType

type_synonym validation_error = "(loc_item list \<times> error_kind) list"

record 'f coercions =
  co_str :: "'f pyval \<Rightarrow> string option"
  co_int :: "'f pyval \<Rightarrow> int option"
  co_float :: "'f pyval \<Rightarrow> 'f option"
  co_list :: "'f pyval \<Rightarrow> 'f pyval list option"
  co_dict :: "'f pyval \<Rightarrow> 'f pydict option"

definition coerced :: "'a option \<Rightarrow> loc_item list \<Rightarrow> validation_error + 'a" where
  "coerced r loc = (case r of Some x \<Rightarrow> Inr x | None \<Rightarrow> Inl [(loc, WrongType)])"

definition validate_str ::
  "'f coercions \<Rightarrow> loc_item list \<Rightarrow> 'f pyval \<Rightarrow> validation_error + string" where
  "validate_str co loc v = (case v of PStr s \<Rightarrow> Inr s | _ \<Rightarrow> coerced (co_str co v) loc)"

definition validate_int ::
  "'f coercions \<Rightarrow> loc_item list \<Rightarrow> 'f pyval \<Rightarrow> validation_error + int" where
  "validate_int co loc v = (case v of PInt i \<Rightarrow> Inr i | _ \<Rightarrow> coerced (co_int co v) loc)"

definition validate_float ::
  "'f coercions \<Rightarrow> loc_item list \<Rightarrow> 'f pyval \<Rightarrow> validation_error + 'f" where
  "validate_float co loc v = (case v of PFloat x \<Rightarrow> Inr x | _ \<Rightarrow> coerced (co_float co v) loc)"

definition validate_list ::
  "'f coercions \<Rightarrow> loc_item list \<Rightarrow> 'f pyval \<Rightarrow> validation_error + 'f pyval list" where
  "validate_list co loc v = (case v of PList xs \<Rightarrow> Inr xs | _ \<Rightarrow> coerced (co_list co v) loc)"

definition validate_dict ::
  "'f coercions \<Rightarrow> loc_item list \<Rightarrow> 'f pyval \<Rightarrow> validation_error + 'f pydict" where
  "validate_dict co loc v = (case v of PDict d \<Rightarrow> Inr d | _ \<Rightarrow> coerced (co_dict co v) loc)"

text \<open>Two fields validated side by side: the errors of both are reported.\<close>

definition both ::
  "validation_error + 'a \<Rightarrow> validation_error + 'b \<Rightarrow> validation_error + ('a \<times> 'b)" where
  "both x y =
     (case x of
        Inl ex \<Rightarrow> (case y of Inl ey \<Rightarrow> Inl (ex @ ey) | Inr b \<Rightarrow> Inl ex)
      | Inr a \<Rightarrow> (case y of Inl ey \<Rightarrow> Inl ey | Inr b \<Rightarrow> Inr (a, b)))"

fun all_valid :: "(validation_error + 'a) list \<Rightarrow> validation_error + 'a list" where
  "all_valid [] = Inr []"
| "all_valid (x # xs) =
     (case both x (all_valid xs) of Inl e \<Rightarrow> Inl e | Inr p \<Rightarrow> Inr (fst p # snd p))"

definition required ::
  "'f pydict \<Rightarrow> string \<Rightarrow> loc_item list
     \<Rightarrow> (loc_item list \<Rightarrow> 'f pyval \<Rightarrow> validation_error + 'a) \<Rightarrow> validation_error + 'a" where
  "required d k loc validator =
     (case map_of d k of
        None \<Rightarrow> Inl [(loc @ [Key k], Missing)]
      | Some v \<Rightarrow> validator (loc @ [Key k]) v)"

text \<open>\<^verbatim>\<open>List[str]\<close>\<close>

definition validate_List_str ::
  "'f coercions \<Rightarrow> loc_item list \<Rightarrow> 'f pyval \<Rightarrow> validation_error + string list" where
  "validate_List_str co loc v =
     and_then (validate_list co loc v) (\<lambda>xs.
       all_valid (map (\<lambda>ix. validate_str co (loc @ [Index (fst ix)]) (snd ix))
                      (enumerate 0 xs)))"

text \<open>\<^verbatim>\<open>Dict[str, T]\<close>, the values validated by \<open>validator\<close>.\<close>

definition validate_Dict ::
  "'f coercions \<Rightarrow> (loc_item list \<Rightarrow> 'f pyval \<Rightarrow> validation_error + 'a)
     \<Rightarrow> loc_item list \<Rightarrow> 'f pyval \<Rightarrow> validation_error + (string \<times> 'a) list" where
  "validate_Dict co validator loc v =
     and_then (validate_dict co loc v) (\<lambda>d.
       all_valid (map (\<lambda>kv. and_then (validator (loc @ [Key (fst kv)]) (snd kv))
                               (\<lambda>y. Inr (fst kv, y))) d))"

definition validate_Grounding ::
  "'f coercions \<Rightarrow> loc_item list \<Rightarrow> 'f pyval \<Rightarrow> validation_error + Grounding" where
  "validate_Grounding co loc v =
     and_then (validate_dict co loc v) (\<lambda>d.
     and_then (both (required d ''citations'' loc (validate_List_str co))
                    (required d ''visual_refs'' loc (validate_List_str co)))
       (\<lambda>p. Inr \<lparr>citations = fst p, visual_refs = snd p\<rparr>))"

definition validate_Attribute ::
  "'f coercions \<Rightarrow> loc_item list \<Rightarrow> 'f pyval \<Rightarrow> validation_error + Attribute" where
  "validate_Attribute co loc v =
     and_then (validate_dict co loc v) (\<lambda>d.
     and_then (both (required d ''value'' loc (validate_str co))
                    (required d ''source'' loc (validate_str co)))
       (\<lambda>p. Inr \<lparr>attr_value = fst p, attr_source = snd p\<rparr>))"

definition validate_Structured ::
  "'f coercions \<Rightarrow> loc_item list \<Rightarrow> 'f pyval \<Rightarrow> validation_error + 'f Structured" where
  "validate_Structured co loc v =
     and_then (validate_dict co loc v) (\<lambda>d.
     and_then (both (required d ''attributes'' loc (validate_Dict co (validate_Attribute co)))
                    (required d ''compliance'' loc (validate_Dict co (validate_dict co))))
       (\<lambda>p. Inr \<lparr>attributes = fst p, compliance = snd p\<rparr>))"

definition validate_Diagnostics ::
  "'f coercions \<Rightarrow> loc_item list \<Rightarrow> 'f pyval \<Rightarrow> validation_error + 'f Diagnostics" where
  "validate_Diagnostics co loc v =
     and_then (validate_dict co loc v) (\<lambda>d.
     and_then (both (required d ''latency'' loc (validate_float co))
                (both (required d ''model'' loc (validate_str co))
                      (required d ''tokens'' loc (validate_int co))))
       (\<lambda>p. Inr \<lparr>latency = fst p, model = fst (snd p), tokens = snd (snd p)\<rparr>))"

text \<open>\<^verbatim>\<open>AnalyzeResponse(**model_response)\<close>; keys the schema does not name are
  ignored.\<close>

definition validate_AnalyzeResponse ::
  "'f coercions \<Rightarrow> 'f pydict \<Rightarrow> validation_error + 'f AnalyzeResponse" where
  "validate_AnalyzeResponse co model_response =
     and_then (both (required model_response ''answer'' [] (validate_str co))
                (both (required model_response ''grounding'' [] (validate_Grounding co))
                  (both (required model_response ''structured'' [] (validate_Structured co))
                        (required model_response ''diagnostics'' [] (validate_Diagnostics co)))))
       (\<lambda>p. Inr \<lparr>answer = fst p, grounding = fst (snd p),
                  structured = fst (snd (snd p)), diagnostics = snd (snd (snd p))\<rparr>)"

section \<open>main.py: the request handler\<close>

text \<open>Everything \<^verbatim>\<open>analyze\<close> takes from outside the repository.\<close>

record 'f env =
  gcs_catalog :: "string + 'f catalog"
  gcs_context :: "string \<Rightarrow> string + 'f pyval"
  generate_content :: "'f scalar \<Rightarrow> 'f context_card \<Rightarrow> string \<Rightarrow> py_exception + response"
  json_loads :: "string \<Rightarrow> string + 'f pyval"
  elapsed :: 'f
  fl_isnan :: "'f \<Rightarrow> bool"
  fl_is_zero :: "'f \<Rightarrow> bool"
  fl_round2 :: "'f \<Rightarrow> 'f"
  pydantic :: "'f coercions"

text \<open>The detail of an \<^verbatim>\<open>HTTPException\<close>: the values its f-string interpolates.\<close>

datatype 'f http_detail =
    Model_query_failed "'f pyval" "'f pyval"
  | Invalid_data_format validation_error

text \<open>How the handler ends: it returns a dict, returns a validated response, raises
  an \<^verbatim>\<open>HTTPException\<close> with a status code, or lets another exception escape.\<close>

datatype 'f outcome =
    Return_dict "'f pydict"
  | Return_response "'f AnalyzeResponse"
  | Raise_HTTPException nat "'f http_detail"
  | Raise_uncaught py_exception

definition default_question :: string where
  "default_question = ''Describe the product based on the image and context.''"

text \<open>\<^verbatim>\<open>request.question or "Describe ..."\<close>\<close>

definition question_or_default :: "string option \<Rightarrow> string" where
  "question_or_default q =
     (case q of None \<Rightarrow> default_question
      | Some s \<Rightarrow> if s = [] then default_question else s)"

text \<open>The dict comprehension over \<^verbatim>\<open>request.context_ids\<close>: an id met again keeps its
  first position.\<close>

fun load_contexts ::
  "(string \<Rightarrow> string + 'f pyval) \<Rightarrow> (string \<times> 'f pyval) list \<Rightarrow> string list
     \<Rightarrow> py_exception + (string \<times> 'f pyval) list" where
  "load_contexts gcs acc [] = Inr acc"
| "load_contexts gcs acc (ctx_id # rest) =
     (case load_context_file gcs ctx_id of
        Inl e \<Rightarrow> Inl e
      | Inr content \<Rightarrow> load_contexts gcs (AList.update ctx_id content acc) rest)"

text \<open>The handler's \<^verbatim>\<open>except (FileNotFoundError, ValueError)\<close> clause; \<^verbatim>\<open>str(e)\<close> of
  an exception raised with one message is the message.\<close>

fun except_load :: "py_exception \<Rightarrow> 'f outcome" where
  "except_load (ValueError m) = Return_dict [(''error'', PStr m)]"
| "except_load (FileNotFoundError m) = Return_dict [(''error'', PStr m)]"
| "except_load (KeyError k) = Raise_uncaught (KeyError k)"
| "except_load TypeError = Raise_uncaught TypeError"
| "except_load AttributeError = Raise_uncaught AttributeError"

text \<open>Step 1 of the handler (its first \<^verbatim>\<open>try\<close> block): \<open>Inl\<close> is the handler ending
  there, \<open>Inr\<close> the product specs, the image reference and the context documents.\<close>

definition analyze_load ::
  "'f env \<Rightarrow> 'f AnalyzeRequest \<Rightarrow> 'f catalog
     \<Rightarrow> 'f outcome + ('f product_specs \<times> 'f scalar \<times> (string \<times> 'f pyval) list)" where
  "analyze_load env request spec_catalog =
     (case get_sku_specs (sku request) spec_catalog of
        Inl e \<Rightarrow> Inl (except_load e)
      | Inr product_specs \<Rightarrow>
          let image_gcs_uri = dict_get product_specs ''image_gcs_uri'' SNone in
          if \<not> truthy (fl_is_zero env) image_gcs_uri
          then Inl (Return_dict
                 [(''error'', PStr (''Image GCS URI not found for SKU: '' @ sku request))])
          else (case load_contexts (gcs_context env) [] (context_ids request) of
                  Inl e \<Rightarrow> Inl (except_load e)
                | Inr contexts \<Rightarrow> Inr (product_specs, image_gcs_uri, contexts)))"

text \<open>Step 4, before validation: the diagnostics the handler adds. Item assignment
  into \<^verbatim>\<open>model_response["diagnostics"]\<close> needs that value to be a dict.\<close>

definition inject_diagnostics ::
  "('f \<Rightarrow> 'f) \<Rightarrow> 'f \<Rightarrow> 'f pydict \<Rightarrow> py_exception + 'f pydict" where
  "inject_diagnostics round2 lat model_response =
     (let mr1 = (if \<not> has_key model_response ''diagnostics''
                 then AList.update ''diagnostics'' (PDict []) model_response
                 else model_response)
      in case map_of mr1 ''diagnostics'' of
           Some (PDict dg) \<Rightarrow>
             let dg1 = AList.update ''latency'' (PFloat (round2 lat)) dg;
                 dg2 = (if \<not> has_key dg1 ''tokens''
                        then AList.update ''tokens'' (PInt 0) dg1 else dg1)
             in Inr (AList.update ''diagnostics'' (PDict dg2) mr1)
         | _ \<Rightarrow> Inl TypeError)"

text \<open>Steps 3 and 4 after the model call: the gateway's error dict becomes an
  \<^verbatim>\<open>HTTPException\<close>; otherwise the diagnostics are added and the result validated,
  a \<^verbatim>\<open>ValidationError\<close> becoming an \<^verbatim>\<open>HTTPException\<close> too.\<close>

definition analyze_respond :: "'f env \<Rightarrow> 'f pydict \<Rightarrow> 'f outcome" where
  "analyze_respond env model_response =
     (if has_key model_response ''error''
      then Raise_HTTPException 500
             (Model_query_failed (dict_get model_response ''error'' PNone)
                                 (dict_get model_response ''details'' PNone))
      else (case inject_diagnostics (fl_round2 env) (elapsed env) model_response of
              Inl e \<Rightarrow> Raise_uncaught e
            | Inr mr \<Rightarrow>
                (case validate_AnalyzeResponse (pydantic env) mr of
                   Inl errs \<Rightarrow> Raise_HTTPException 500 (Invalid_data_format errs)
                 | Inr validated_response \<Rightarrow> Return_response validated_response)))"

definition analyze :: "'f env \<Rightarrow> 'f AnalyzeRequest \<Rightarrow> 'f outcome" where
  "analyze env request =
     (case load_spec_catalog (gcs_catalog env) of
        Inl e \<Rightarrow> Raise_uncaught e
      | Inr spec_catalog \<Rightarrow>
          (case analyze_load env request spec_catalog of
             Inl ended \<Rightarrow> ended
           | Inr loaded \<Rightarrow>
               (case compose_context_card (fl_isnan env) (fst loaded) (snd (snd loaded)) of
                  Inl e \<Rightarrow> Raise_uncaught e
                | Inr context_card \<Rightarrow>
                    (case query_gemini (json_loads env) (generate_content env)
                            (fst (snd loaded)) context_card
                            (question_or_default (question request)) of
                       Inl e \<Rightarrow> Raise_uncaught e
                     | Inr model_response \<Rightarrow> analyze_respond env model_response))))"

subsection \<open>The \<^verbatim>\<open>/analyze\<close> operation\<close>

text \<open>The handler is registered for \<^verbatim>\<open>POST /analyze\<close> with
  \<^verbatim>\<open>response_model=AnalyzeResponse\<close>, so what a client receives is decided by the
  web framework from the handler's outcome. A reply is a status code and a body.\<close>

datatype 'f http_body =
    Json_response "'f AnalyzeResponse"
  | Json_detail "'f http_detail"
  | Internal_server_error

record 'f http_response =
  status_code :: nat
  body :: "'f http_body"

text \<open>The framework's treatment of a route that declares a response model: a returned
  \<^verbatim>\<open>AnalyzeResponse\<close> is sent with status 200; a returned dict is validated against
  the response model first, and a dict that fails the validation raises the framework's
  response validation error, which no handler of the application catches, so that the
  client gets status 500 with the body \<^verbatim>\<open>Internal Server Error\<close>; an
  \<^verbatim>\<open>HTTPException\<close> is sent with its own status code and its detail; any other
  exception leaving the handler is sent as status 500.\<close>

fun serve :: "'f coercions \<Rightarrow> 'f outcome \<Rightarrow> 'f http_response" where
  "serve co (Return_response r) = \<lparr>status_code = 200, body = Json_response r\<rparr>"
| "serve co (Return_dict d) =
     (case validate_AnalyzeResponse co d of
        Inl errs \<Rightarrow> \<lparr>status_code = 500, body = Internal_server_error\<rparr>
      | Inr r \<Rightarrow> \<lparr>status_code = 200, body = Json_response r\<rparr>)"
| "serve co (Raise_HTTPException status detail) =
     \<lparr>status_code = status, body = Json_detail detail\<rparr>"
| "serve co (Raise_uncaught e) = \<lparr>status_code = 500, body = Internal_server_error\<rparr>"

text \<open>The operation: the handler run under the framework.\<close>

definition analyze_operation :: "'f env \<Rightarrow> 'f AnalyzeRequest \<Rightarrow> 'f http_response" where
  "analyze_operation env request = serve (pydantic env) (analyze env request)"

section \<open>The specification's notions\<close>

text \<open>The definitions of this section are written from the specification's wording;
  the theorems below compare the code with them.\<close>

text \<open>The card entry of one rule: \<open>id\<close> and \<open>text\<close> as the document has them (null
  when absent), \<open>mandatory\<close> false unless the document sets it.\<close>

definition spec_rule_entry :: "'f pyval \<Rightarrow> 'f pyval" where
  "spec_rule_entry r =
     (case r of
        PDict d \<Rightarrow> PDict [(''id'', dict_get d ''id'' PNone),
                          (''text'', dict_get d ''text'' PNone),
                          (''mandatory'', dict_get d ''mandatory'' (PBool False))]
      | _ \<Rightarrow> PNone)"

text \<open>The entries one document contributes: those of its \<open>rules\<close> list, in the list's
  order.\<close>

definition spec_document_rules :: "'f pyval \<Rightarrow> 'f pyval list" where
  "spec_document_rules doc =
     (case doc of
        PDict d \<Rightarrow> (case map_of d ''rules'' of Some (PList rs) \<Rightarrow> map spec_rule_entry rs | _ \<Rightarrow> [])
      | _ \<Rightarrow> [])"

text \<open>The \<open>brand_voice\<close> field of a document, if it has one.\<close>

definition spec_document_brand_voice :: "'f pyval \<Rightarrow> 'f pyval option" where
  "spec_document_brand_voice doc = (case doc of PDict d \<Rightarrow> map_of d ''brand_voice'' | _ \<Rightarrow> None)"

text \<open>The \<open>brand_voice\<close> of the last document, in the given order, that defines one.\<close>

definition spec_last_brand_voice :: "'f pyval list \<Rightarrow> 'f pyval option" where
  "spec_last_brand_voice docs =
     (case filter (\<lambda>d. spec_document_brand_voice d \<noteq> None) docs of
        [] \<Rightarrow> None
      | d # ds \<Rightarrow> spec_document_brand_voice (last (d # ds)))"

text \<open>A context document as the data model describes it: a mapping whose \<open>rules\<close>, when
  present, is a list of mappings.\<close>

fun is_dict :: "'f pyval \<Rightarrow> bool" where
  "is_dict (PDict d) = True"
| "is_dict _ = False"

definition spec_wf_document :: "'f pyval \<Rightarrow> bool" where
  "spec_wf_document doc =
     (case doc of
        PDict d \<Rightarrow> (case map_of d ''rules'' of
                      None \<Rightarrow> True
                    | Some (PList rs) \<Rightarrow> list_all is_dict rs
                    | Some _ \<Rightarrow> False)
      | _ \<Rightarrow> False)"

text \<open>A null attribute value: \<^verbatim>\<open>None\<close>, or the NaN that stands for an empty cell.\<close>

fun spec_is_null :: "('f \<Rightarrow> bool) \<Rightarrow> 'f scalar \<Rightarrow> bool" where
  "spec_is_null isnan SNone = True"
| "spec_is_null isnan (SFloat x) = isnan x"
| "spec_is_null isnan (SBool b) = False"
| "spec_is_null isnan (SInt i) = False"
| "spec_is_null isnan (SStr s) = False"

text \<open>
  The response schema read as a yes-or-no question: does a model output violate it
  outside \<open>diagnostics\<close>? A required field violates it when it is missing or when its
  value is not of the field's type (a value of another type counts as of the type when
  the library coerces it). \<open>answer\<close> is a string; \<open>grounding\<close> a mapping with the
  string lists \<open>citations\<close> and \<open>visual_refs\<close>; \<open>structured\<close> a mapping with
  \<open>attributes\<close>, a mapping of mappings with the strings \<open>value\<close> and \<open>source\<close>, and
  \<open>compliance\<close>, a mapping of mappings.
\<close>

definition as_dict :: "'f coercions \<Rightarrow> 'f pyval \<Rightarrow> 'f pydict option" where
  "as_dict co v = (case v of PDict d \<Rightarrow> Some d | _ \<Rightarrow> co_dict co v)"

definition as_list :: "'f coercions \<Rightarrow> 'f pyval \<Rightarrow> 'f pyval list option" where
  "as_list co v = (case v of PList xs \<Rightarrow> Some xs | _ \<Rightarrow> co_list co v)"

definition not_str :: "'f coercions \<Rightarrow> 'f pyval \<Rightarrow> bool" where
  "not_str co v = (case v of PStr s \<Rightarrow> False | _ \<Rightarrow> co_str co v = None)"

definition field_violates :: "'f pydict \<Rightarrow> string \<Rightarrow> ('f pyval \<Rightarrow> bool) \<Rightarrow> bool" where
  "field_violates d k bad = (case map_of d k of None \<Rightarrow> True | Some v \<Rightarrow> bad v)"

definition bad_str_list :: "'f coercions \<Rightarrow> 'f pyval \<Rightarrow> bool" where
  "bad_str_list co v =
     (case as_list co v of None \<Rightarrow> True | Some xs \<Rightarrow> list_ex (not_str co) xs)"

definition bad_grounding :: "'f coercions \<Rightarrow> 'f pyval \<Rightarrow> bool" where
  "bad_grounding co v =
     (case as_dict co v of
        None \<Rightarrow> True
      | Some g \<Rightarrow> field_violates g ''citations'' (bad_str_list co)
                 \<or> field_violates g ''visual_refs'' (bad_str_list co))"

definition bad_attribute :: "'f coercions \<Rightarrow> 'f pyval \<Rightarrow> bool" where
  "bad_attribute co v =
     (case as_dict co v of
        None \<Rightarrow> True
      | Some a \<Rightarrow> field_violates a ''value'' (not_str co)
                 \<or> field_violates a ''source'' (not_str co))"

definition bad_attributes :: "'f coercions \<Rightarrow> 'f pyval \<Rightarrow> bool" where
  "bad_attributes co v =
     (case as_dict co v of
        None \<Rightarrow> True
      | Some entries \<Rightarrow> list_ex (\<lambda>kv. bad_attribute co (snd kv)) entries)"

definition bad_compliance :: "'f coercions \<Rightarrow> 'f pyval \<Rightarrow> bool" where
  "bad_compliance co v =
     (case as_dict co v of
        None \<Rightarrow> True
      | Some entries \<Rightarrow> list_ex (\<lambda>kv. as_dict co (snd kv) = None) entries)"

definition bad_structured :: "'f coercions \<Rightarrow> 'f pyval \<Rightarrow> bool" where
  "bad_structured co v =
     (case as_dict co v of
        None \<Rightarrow> True
      | Some st \<Rightarrow> field_violates st ''attributes'' (bad_attributes co)
                  \<or> field_violates st ''compliance'' (bad_compliance co))"

definition spec_violates_schema :: "'f coercions \<Rightarrow> 'f pydict \<Rightarrow> bool" where
  "spec_violates_schema co mr =
     (field_violates mr ''answer'' (not_str co)
      \<or> field_violates mr ''grounding'' (bad_grounding co)
      \<or> field_violates mr ''structured'' (bad_structured co))"

text \<open>The diagnostics mapping of a model output, empty when it has none.\<close>

definition diagnostics_of :: "'f pydict \<Rightarrow> 'f pydict" where
  "diagnostics_of mr = (case map_of mr ''diagnostics'' of Some (PDict dg) \<Rightarrow> dg | _ \<Rightarrow> [])"



text \<open>A required field of the model's part of the schema is missing: \<open>answer\<close>,
  \<open>grounding\<close> with its \<open>citations\<close> and \<open>visual_refs\<close>, \<open>structured\<close> with its
  \<open>attributes\<close> and \<open>compliance\<close>, \<open>value\<close> and \<open>source\<close> of every attribute.\<close>

definition spec_attribute_incomplete :: "'f pyval \<Rightarrow> bool" where
  "spec_attribute_incomplete v =
     (case v of
        PDict a \<Rightarrow> map_of a ''value'' = None \<or> map_of a ''source'' = None
      | _ \<Rightarrow> False)"

definition spec_missing_required :: "'f pydict \<Rightarrow> bool" where
  "spec_missing_required mr =
     (map_of mr ''answer'' = None
      \<or> (case map_of mr ''grounding'' of
            None \<Rightarrow> True
          | Some (PDict g) \<Rightarrow> map_of g ''citations'' = None \<or> map_of g ''visual_refs'' = None
          | Some _ \<Rightarrow> False)
      \<or> (case map_of mr ''structured'' of
            None \<Rightarrow> True
          | Some (PDict st) \<Rightarrow>
              map_of st ''compliance'' = None
              \<or> (case map_of st ''attributes'' of
                    None \<Rightarrow> True
                  | Some (PDict entries) \<Rightarrow>
                      list_ex (\<lambda>kv. spec_attribute_incomplete (snd kv)) entries
                  | Some _ \<Rightarrow> False)
          | Some _ \<Rightarrow> False))"

section \<open>Example inputs\<close>

definition example_specs :: "real product_specs" where
  "example_specs = [(''color'', SStr ''red''), (''material'', SNone),
                    (''weight'', SFloat (- 1)), (''size'', SInt 42),
                    (''image_gcs_uri'', SStr ''gs://bucket/sku1.jpg'')]"

text \<open>In the examples the float \<open>- 1\<close> plays the NaN.\<close>

definition example_isnan :: "real \<Rightarrow> bool" where
  "example_isnan x = (x = - 1)"

definition example_voice_contexts :: "(string \<times> real pyval) list" where
  "example_voice_contexts = [(''rules_v1'', PDict [(''brand_voice'', PStr ''plain'')])]"

text \<open>Two documents that both define the rule \<open>R-1\<close>; the second rule of the first
  document has a null id and no text.\<close>

definition example_rule_contexts :: "(string \<times> real pyval) list" where
  "example_rule_contexts =
     [(''a'', PDict [(''rules'',
          PList [PDict [(''id'', PStr ''R-1''), (''text'', PStr ''one'')],
                 PDict [(''id'', PNone), (''mandatory'', PBool True)]])]),
      (''b'', PDict [(''rules'',
          PList [PDict [(''id'', PStr ''R-1''), (''text'', PStr ''two'')]])])]"

text \<open>A store with document \<open>A\<close> (no brand voice, or brand voice \<open>Y\<close>) and document
  \<open>B\<close> (brand voice \<open>X\<close>).\<close>

definition example_gcs :: "bool \<Rightarrow> string \<Rightarrow> string + real pyval" where
  "example_gcs a_has_voice context_id =
     (if context_id = ''A''
      then Inr (PDict (if a_has_voice then [(''brand_voice'', PStr ''Y'')] else []))
      else if context_id = ''B'' then Inr (PDict [(''brand_voice'', PStr ''X'')])
      else Inl ''Could not load context'')"

definition example_text_ok :: string where
  \<open>example_text_ok = ''{"answer": "ok", "grounding": {"citations": [], "visual_refs": []}, "structured": {"attributes": {}, "compliance": {}}}''\<close>

definition example_text_tokens :: string where
  \<open>example_text_tokens = ''{"answer": "ok", "grounding": {"citations": [], "visual_refs": []}, "structured": {"attributes": {}, "compliance": {}}, "diagnostics": {"tokens": 999}}''\<close>

definition example_text_no_compliance :: string where
  \<open>example_text_no_compliance = ''{"answer": "ok", "grounding": {"citations": [], "visual_refs": []}, "structured": {"attributes": {}}}''\<close>

definition example_text_list :: string where
  "example_text_list = ''[1, 2]''"

definition example_parsed_ok :: "real pydict" where
  "example_parsed_ok =
     [(''answer'', PStr ''ok''),
      (''grounding'', PDict [(''citations'', PList []), (''visual_refs'', PList [])]),
      (''structured'', PDict [(''attributes'', PDict []), (''compliance'', PDict [])])]"

text \<open>What \<^verbatim>\<open>json.loads\<close> returns on the example texts.\<close>

definition example_loads :: "string \<Rightarrow> string + real pyval" where
  "example_loads s =
     (if s = example_text_ok then Inr (PDict example_parsed_ok)
      else if s = example_text_tokens
        then Inr (PDict (example_parsed_ok @ [(''diagnostics'', PDict [(''tokens'', PInt 999)])]))
      else if s = example_text_no_compliance
        then Inr (PDict [(''answer'', PStr ''ok''),
               (''grounding'', PDict [(''citations'', PList []), (''visual_refs'', PList [])]),
               (''structured'', PDict [(''attributes'', PDict [])])])
      else if s = example_text_list then Inr (PList [PInt 1, PInt 2])
      else Inl ''Expecting value'')"

definition example_response :: "string \<Rightarrow> response" where
  "example_response raw_text =
     \<lparr>candidates = [\<lparr>finish_reason = ''STOP'', safety_ratings = ''[]''\<rparr>],
      response_text = raw_text\<rparr>"

text \<open>A library that coerces nothing but an integer to a float.\<close>

definition example_pydantic :: "real coercions" where
  "example_pydantic =
     \<lparr>co_str = (\<lambda>v. None), co_int = (\<lambda>v. None),
      co_float = (\<lambda>v. case v of PInt i \<Rightarrow> Some (real_of_int i) | _ \<Rightarrow> None),
      co_list = (\<lambda>v. None), co_dict = (\<lambda>v. None)\<rparr>"

text \<open>An environment whose model answers every prompt with the given text, 1.234
  seconds after the request came in.\<close>

definition example_env :: "string \<Rightarrow> real env" where
  "example_env raw_text =
     \<lparr>gcs_catalog = Inr [(''SKU1'', example_specs)],
      gcs_context = example_gcs False,
      generate_content = (\<lambda>image_gcs_uri context_card question. Inr (example_response raw_text)),
      json_loads = example_loads,
      elapsed = 1.234,
      fl_isnan = example_isnan,
      fl_is_zero = (\<lambda>x. x = 0),
      fl_round2 = (\<lambda>x. if x = 1.234 then 1.23 else x),
      pydantic = example_pydantic\<rparr>"

definition example_request :: "string \<Rightarrow> real AnalyzeRequest" where
  "example_request s =
     \<lparr>sku = s, question = Some ''Is this shoe waterproof?'', context_ids = [''A'', ''B''],
      metadata = None\<rparr>"



text \<open>A catalog whose only product has no image reference.\<close>

definition example_env_no_image :: "real env" where
  "example_env_no_image =
     (example_env [])\<lparr>gcs_catalog := Inr [(''SKU2'', [(''color'', SStr ''blue'')])]\<rparr>"

text \<open>A model that answers with the question it was asked, and a parser that accepts
  the default prompt only: the reply parses exactly when the model was asked the default
  prompt.\<close>

definition example_env_echo :: "real env" where
  "example_env_echo =
     (example_env [])
       \<lparr>generate_content := (\<lambda>image_gcs_uri context_card question.
                               Inr (example_response question)),
        json_loads := (\<lambda>s. if s = default_question then Inr (PDict example_parsed_ok)
                            else Inl ''Expecting value'')\<rparr>"

section \<open>The context composer\<close>

lemma and_then_simps [simp]:
  "and_then (Inl e) f = Inl e" "and_then (Inr x) f = f x"
  by (simp_all add: and_then_def)

lemma and_then_eq_Inr:
  "and_then m f = Inr y \<longleftrightarrow> (\<exists>x. m = Inr x \<and> f x = Inr y)"
  by (cases m) simp_all

lemma spec_rule_entry_PDict:
  "spec_rule_entry (PDict d) =
     PDict [(''id'', dict_get d ''id'' PNone), (''text'', dict_get d ''text'' PNone),
            (''mandatory'', dict_get d ''mandatory'' (PBool False))]"
  by (simp add: spec_rule_entry_def)

lemma append_rules_Inr:
  "append_rules acc rs = Inr out \<Longrightarrow> out = acc @ map spec_rule_entry rs"
proof (induction rs arbitrary: acc)
  case Nil
  then show ?case by simp
next
  case (Cons r rs)
  from Cons.prems have "append_rules (acc @ [spec_rule_entry r]) rs = Inr out"
    by (cases r) (simp_all add: spec_rule_entry_PDict)
  from Cons.IH [OF this] show ?case by simp
qed

lemma append_rules_total:
  "list_all is_dict rs \<Longrightarrow> \<exists>out. append_rules acc rs = Inr out"
proof (induction rs arbitrary: acc)
  case Nil
  then show ?case by simp
next
  case (Cons r rs)
  then show ?case by (cases r) auto
qed

lemma append_rules_keys_Inr:
  "append_rules acc (map (\<lambda>kv. PStr (f kv)) d) = Inr out \<Longrightarrow> d = []"
  by (cases d) auto

lemma py_iter_rules:
  assumes "py_iter v = Inr rs" and "append_rules acc rs = Inr out"
  shows "out = acc @ (case v of PList xs \<Rightarrow> map spec_rule_entry xs | _ \<Rightarrow> [])"
proof (cases v)
  case (PList xs)
  with assms show ?thesis by (auto dest: append_rules_Inr)
next
  case (PDict d)
  with assms have "d = []" by (auto dest: append_rules_keys_Inr)
  with assms PDict show ?thesis by auto
next
  case (PStr s)
  with assms have "s = []" by (auto dest: append_rules_keys_Inr)
  with assms PStr show ?thesis by auto
qed (use assms in auto)

lemma compose_step_Inr:
  assumes "compose_step c0 item = Inr c1"
  shows "rules c1 = rules c0 @ spec_document_rules (snd item)
       \<and> product_attributes c1 = product_attributes c0
       \<and> brand_voice c1 =
           (case spec_document_brand_voice (snd item) of Some v \<Rightarrow> Some v | None \<Rightarrow> brand_voice c0)"
proof (cases "snd item")
  case (PDict d)
  show ?thesis
  proof (cases "map_of d ''rules''")
    case None
    with assms PDict show ?thesis
      by (auto simp: compose_step_def Let_def has_key_def spec_document_rules_def spec_document_brand_voice_def
               split: option.splits)
  next
    case (Some rl)
    with assms PDict show ?thesis
      by (auto simp: compose_step_def Let_def has_key_def spec_document_rules_def spec_document_brand_voice_def
                     and_then_eq_Inr
               split: option.splits if_splits dest!: py_iter_rules)
  qed
next
  case (PList xs)
  with assms show ?thesis
    by (auto simp: compose_step_def Let_def spec_document_rules_def spec_document_brand_voice_def
             split: if_splits)
next
  case (PStr s)
  with assms show ?thesis
    by (auto simp: compose_step_def Let_def spec_document_rules_def spec_document_brand_voice_def
             split: if_splits)
qed (use assms in \<open>auto simp: compose_step_def Let_def\<close>)

lemma compose_loop_Inr:
  "compose_loop c0 contexts = Inr c \<Longrightarrow>
     rules c = rules c0 @ concat (map (\<lambda>kv. spec_document_rules (snd kv)) contexts)
   \<and> product_attributes c = product_attributes c0"
proof (induction contexts arbitrary: c0)
  case Nil
  then show ?case by simp
next
  case (Cons item rest)
  then obtain c1 where s: "compose_step c0 item = Inr c1" and l: "compose_loop c1 rest = Inr c"
    by (auto split: sum.splits)
  from Cons.IH [OF l] compose_step_Inr [OF s] show ?case by simp
qed


lemma spec_last_brand_voice_Cons:
  "spec_last_brand_voice (d # docs) =
     (case spec_last_brand_voice docs of Some v \<Rightarrow> Some v | None \<Rightarrow> spec_document_brand_voice d)"
proof (cases "filter (\<lambda>d. spec_document_brand_voice d \<noteq> None) docs")
  case Nil
  then show ?thesis by (auto simp: spec_last_brand_voice_def)
next
  case (Cons x xs)
  then have "last (x # xs) \<in> set (filter (\<lambda>d. spec_document_brand_voice d \<noteq> None) docs)"
    by (metis last_in_set list.distinct(1))
  then have "spec_document_brand_voice (last (x # xs)) \<noteq> None" by simp
  with Cons show ?thesis by (auto simp: spec_last_brand_voice_def)
qed

lemma compose_loop_brand_voice:
  "compose_loop c0 contexts = Inr c \<Longrightarrow>
     brand_voice c = (case spec_last_brand_voice (map snd contexts) of
                        Some v \<Rightarrow> Some v | None \<Rightarrow> brand_voice c0)"
proof (induction contexts arbitrary: c0)
  case Nil
  then show ?case by (simp add: spec_last_brand_voice_def)
next
  case (Cons item rest)
  then obtain c1 where s: "compose_step c0 item = Inr c1" and l: "compose_loop c1 rest = Inr c"
    by (auto split: sum.splits)
  from Cons.IH [OF l] compose_step_Inr [OF s] show ?case
    by (simp add: spec_last_brand_voice_Cons split: option.splits)
qed

lemma compose_step_total:
  "spec_wf_document (snd item) \<Longrightarrow> \<exists>c1. compose_step c0 item = Inr c1"
proof (cases "snd item")
  case (PDict d)
  assume wf: "spec_wf_document (snd item)"
  show ?thesis
  proof (cases "map_of d ''rules''")
    case None
    with PDict show ?thesis
      by (auto simp: compose_step_def Let_def has_key_def split: option.splits)
  next
    case (Some rl)
    with wf PDict obtain rs where rl: "rl = PList rs" and d: "list_all is_dict rs"
      by (cases rl) (auto simp: spec_wf_document_def)
    from append_rules_total [OF d] obtain out where "append_rules (rules c0) rs = Inr out"
      by blast
    with Some PDict rl show ?thesis
      by (auto simp: compose_step_def Let_def has_key_def split: option.splits)
  qed
qed (auto simp: spec_wf_document_def)

lemma compose_loop_total:
  "list_all (\<lambda>kv. spec_wf_document (snd kv)) contexts \<Longrightarrow> \<exists>c. compose_loop c0 contexts = Inr c"
proof (induction contexts arbitrary: c0)
  case Nil
  then show ?case by simp
next
  case (Cons item rest)
  then obtain c1 where "compose_step c0 item = Inr c1"
    using compose_step_total [of item c0] by auto
  with Cons show ?case by auto
qed

lemma map_of_filter_distinct:
  "distinct (map fst xs) \<Longrightarrow>
     map_of (filter (\<lambda>kv. P (snd kv)) xs) k =
       (case map_of xs k of Some v \<Rightarrow> if P v then Some v else None | None \<Rightarrow> None)"
proof (induction xs)
  case Nil
  then show ?case by simp
next
  case (Cons x xs)
  then show ?case
    by (cases x) (auto split: option.splits simp: map_of_eq_None_iff dest: map_of_SomeD
                  intro: rev_image_eqI)
qed

lemma pd_notna_is_null: "pd_notna isnan v = (\<not> spec_is_null isnan v)"
  by (cases v) simp_all



lemma load_contexts_pair:
  assumes "load_contexts gcs [] [a, b] = Inr contexts"
  shows "\<exists>doc_a doc_b. gcs a = Inr doc_a \<and> gcs b = Inr doc_b
           \<and> contexts = (if a = b then [(b, doc_b)] else [(a, doc_a), (b, doc_b)])"
  using assms by (auto simp: load_context_file_def split: sum.splits)

lemma load_contexts_distinct:
  "load_contexts gcs acc ids = Inr contexts \<Longrightarrow> distinct (map fst acc @ ids) \<Longrightarrow>
     contexts = acc @ map (\<lambda>i. (i, projr (gcs i))) ids"
proof (induction ids arbitrary: acc)
  case Nil
  then show ?case by simp
next
  case (Cons i ids)
  from Cons.prems obtain doc where g: "gcs i = Inr doc"
    and l: "load_contexts gcs (AList.update i doc acc) ids = Inr contexts"
    by (auto simp: load_context_file_def split: sum.splits)
  from Cons.prems have fresh: "i \<notin> fst ` set acc" by auto
  then have u: "AList.update i doc acc = acc @ [(i, doc)]"
    by (induction acc) auto
  from Cons.prems have "distinct (map fst (acc @ [(i, doc)]) @ ids)" by auto
  from Cons.IH [OF l [unfolded u] this] g show ?case by simp
qed

text \<open>For any number of documents with pairwise different ids, the card's
  \<open>brand_voice\<close> is that of the last document, in the order of the request's
  \<open>context_ids\<close>, that defines one.\<close>

lemma brand_voice_last_of_distinct_ids:
  assumes "distinct ids"
    and "load_contexts gcs [] ids = Inr contexts"
    and "compose_context_card isnan specs contexts = Inr c"
  shows "brand_voice c = spec_last_brand_voice (map (\<lambda>i. projr (gcs i)) ids)"
proof -
  from load_contexts_distinct [OF assms(2)] assms(1)
  have "map snd contexts = map (\<lambda>i. projr (gcs i)) ids" by (simp add: comp_def)
  with compose_loop_brand_voice [OF assms(3) [unfolded compose_context_card_def]]
  show ?thesis by (simp split: option.splits)
qed

text \<open>
  Claim C8. For every product spec mapping, the product attributes of the composed card
  are exactly the attributes of the spec whose value is not null, under the same key and
  with the same value; a null-valued attribute has no entry in the card. (The card
  exists whenever the context documents are well formed.)
\<close>

theorem product_attributes_non_null:
  assumes "distinct (map fst specs)"
  shows "(list_all (\<lambda>kv. spec_wf_document (snd kv)) contexts \<longrightarrow>
            (\<exists>c. compose_context_card isnan specs contexts = Inr c))
       \<and> (\<forall>c. compose_context_card isnan specs contexts = Inr c \<longrightarrow>
            (\<forall>k. map_of (product_attributes c) k =
               (case map_of specs k of
                  Some v \<Rightarrow> if spec_is_null isnan v then None else Some v
                | None \<Rightarrow> None)))"
proof (intro conjI allI impI)
  assume "list_all (\<lambda>kv. spec_wf_document (snd kv)) contexts"
  then show "\<exists>c. compose_context_card isnan specs contexts = Inr c"
    unfolding compose_context_card_def by (rule compose_loop_total)
next
  fix c k
  assume "compose_context_card isnan specs contexts = Inr c"
  then have "product_attributes c = filter (\<lambda>kv. pd_notna isnan (snd kv)) specs"
    unfolding compose_context_card_def by (auto dest: compose_loop_Inr)
  with map_of_filter_distinct [OF assms, of "pd_notna isnan" k]
  show "map_of (product_attributes c) k =
      (case map_of specs k of Some v \<Rightarrow> if spec_is_null isnan v then None else Some v | None \<Rightarrow> None)"
    by (simp add: pd_notna_is_null split: option.splits)
qed

theorem product_attributes_non_null_witness:
  "distinct (map fst example_specs)
   \<and> list_all (\<lambda>kv. spec_wf_document (snd kv)) example_voice_contexts
   \<and> (\<exists>c. compose_context_card example_isnan example_specs example_voice_contexts = Inr c
         \<and> map_of (product_attributes c) ''color'' = Some (SStr ''red'')
         \<and> map_of (product_attributes c) ''material'' = None
         \<and> map_of (product_attributes c) ''weight'' = None
         \<and> map_of (product_attributes c) ''size'' = Some (SInt 42))"
proof -
  have d: "distinct (map fst example_specs)" by (simp add: example_specs_def)
  have w: "list_all (\<lambda>kv. spec_wf_document (snd kv)) example_voice_contexts"
    by (simp add: example_voice_contexts_def spec_wf_document_def)
  note t = product_attributes_non_null [OF d, of example_voice_contexts example_isnan]
  from t w obtain c
    where c: "compose_context_card example_isnan example_specs example_voice_contexts = Inr c"
    by blast
  with t have "\<forall>k. map_of (product_attributes c) k =
      (case map_of example_specs k of
         Some v \<Rightarrow> if spec_is_null example_isnan v then None else Some v
       | None \<Rightarrow> None)" by blast
  then have "map_of (product_attributes c) ''color'' = Some (SStr ''red'')"
    and "map_of (product_attributes c) ''material'' = None"
    and "map_of (product_attributes c) ''weight'' = None"
    and "map_of (product_attributes c) ''size'' = Some (SInt 42)"
    by (simp_all add: example_specs_def example_isnan_def)
  with d w c show ?thesis by - (intro conjI exI [of _ c], assumption+)
qed

text \<open>
  Claim C7. The rules of the composed card are the concatenation, in document order and
  then in the order inside each document, of the entries of each document's rules list:
  each entry carries the rule's \<open>id\<close> and \<open>text\<close> unchanged (null when the rule has
  none) and its \<open>mandatory\<close> flag, false when absent. Nothing is removed: a rule id
  that two documents define appears twice. (The card exists whenever the context
  documents are well formed.)
\<close>

theorem rules_concatenated:
  "(list_all (\<lambda>kv. spec_wf_document (snd kv)) contexts \<longrightarrow>
      (\<exists>c. compose_context_card isnan specs contexts = Inr c))
   \<and> (\<forall>c. compose_context_card isnan specs contexts = Inr c \<longrightarrow>
        rules c = concat (map (\<lambda>kv. spec_document_rules (snd kv)) contexts))"
proof (intro conjI allI impI)
  assume "list_all (\<lambda>kv. spec_wf_document (snd kv)) contexts"
  then show "\<exists>c. compose_context_card isnan specs contexts = Inr c"
    unfolding compose_context_card_def by (rule compose_loop_total)
next
  fix c
  assume "compose_context_card isnan specs contexts = Inr c"
  then show "rules c = concat (map (\<lambda>kv. spec_document_rules (snd kv)) contexts)"
    unfolding compose_context_card_def by (auto dest: compose_loop_Inr)
qed

theorem rules_concatenated_witness:
  "list_all (\<lambda>kv. spec_wf_document (snd kv)) example_rule_contexts
   \<and> (\<exists>c. compose_context_card example_isnan example_specs example_rule_contexts = Inr c
      \<and> rules c =
          [PDict [(''id'', PStr ''R-1''), (''text'', PStr ''one''), (''mandatory'', PBool False)],
           PDict [(''id'', PNone), (''text'', PNone), (''mandatory'', PBool True)],
           PDict [(''id'', PStr ''R-1''), (''text'', PStr ''two''), (''mandatory'', PBool False)]])"
proof -
  have w: "list_all (\<lambda>kv. spec_wf_document (snd kv)) example_rule_contexts"
    by (simp add: example_rule_contexts_def spec_wf_document_def)
  note t = rules_concatenated [of example_rule_contexts example_isnan example_specs]
  from t w obtain c
    where c: "compose_context_card example_isnan example_specs example_rule_contexts = Inr c"
    by blast
  with t have "rules c = concat (map (\<lambda>kv. spec_document_rules (snd kv)) example_rule_contexts)"
    by blast
  then have "rules c =
          [PDict [(''id'', PStr ''R-1''), (''text'', PStr ''one''), (''mandatory'', PBool False)],
           PDict [(''id'', PNone), (''text'', PNone), (''mandatory'', PBool True)],
           PDict [(''id'', PStr ''R-1''), (''text'', PStr ''two''), (''mandatory'', PBool False)]]"
    by (simp add: example_rule_contexts_def spec_document_rules_def spec_rule_entry_PDict dict_get_def)
  with w c show ?thesis by - (intro conjI exI [of _ c], assumption+)
qed

text \<open>
  Claim C6. For two context documents requested in the order \<open>a\<close>, \<open>b\<close>, the
  \<open>brand_voice\<close> of the composed card is that of \<open>b\<close> if \<open>b\<close> defines one, otherwise
  that of \<open>a\<close> if \<open>a\<close> defines one (the last writer wins), and the card has no
  \<open>brand_voice\<close> when neither document defines one. (The card exists whenever the two
  documents are well formed.)
\<close>

theorem brand_voice_last_writer_wins:
  assumes "gcs a = Inr doc_a" and "gcs b = Inr doc_b"
  shows "(spec_wf_document doc_a \<and> spec_wf_document doc_b \<longrightarrow>
            (\<exists>contexts c. load_contexts gcs [] [a, b] = Inr contexts
                \<and> compose_context_card isnan specs contexts = Inr c))
       \<and> (\<forall>contexts c. load_contexts gcs [] [a, b] = Inr contexts
                \<and> compose_context_card isnan specs contexts = Inr c \<longrightarrow>
            brand_voice c = (case spec_document_brand_voice doc_b of
                               Some v \<Rightarrow> Some v
                             | None \<Rightarrow> spec_document_brand_voice doc_a))"
proof (intro conjI allI impI)
  assume wf: "spec_wf_document doc_a \<and> spec_wf_document doc_b"
  from assms obtain contexts where l: "load_contexts gcs [] [a, b] = Inr contexts"
    and s: "set (map snd contexts) \<subseteq> {doc_a, doc_b}"
    by (auto simp: load_context_file_def)
  from s wf have "list_all (\<lambda>kv. spec_wf_document (snd kv)) contexts"
    by (auto simp: list_all_iff)
  from compose_loop_total [OF this] l
  show "\<exists>contexts c. load_contexts gcs [] [a, b] = Inr contexts
          \<and> compose_context_card isnan specs contexts = Inr c"
    unfolding compose_context_card_def by blast
next
  fix contexts c
  assume h: "load_contexts gcs [] [a, b] = Inr contexts
               \<and> compose_context_card isnan specs contexts = Inr c"
  from load_contexts_pair [of gcs a b contexts] h assms
  have ctx: "contexts = (if a = b then [(b, doc_b)] else [(a, doc_a), (b, doc_b)])"
    by auto
  from h have "brand_voice c = spec_last_brand_voice (map snd contexts)"
    unfolding compose_context_card_def
    by (auto dest!: compose_loop_brand_voice split: option.splits)
  with ctx assms show "brand_voice c = (case spec_document_brand_voice doc_b of
                               Some v \<Rightarrow> Some v
                             | None \<Rightarrow> spec_document_brand_voice doc_a)"
    by (auto simp: spec_last_brand_voice_Cons spec_last_brand_voice_def split: option.splits)
qed


theorem brand_voice_last_writer_wins_witness:
  "example_gcs False ''A'' = Inr (PDict []) \<and>
   example_gcs False ''B'' = Inr (PDict [(''brand_voice'', PStr ''X'')]) \<and>
   spec_wf_document (PDict [] :: real pyval) \<and>
   spec_wf_document (PDict [(''brand_voice'', PStr ''X'')] :: real pyval) \<and>
   (\<exists>contexts c. load_contexts (example_gcs False) [] [''A'', ''B''] = Inr contexts
       \<and> compose_context_card example_isnan example_specs contexts = Inr c
       \<and> brand_voice c = Some (PStr ''X''))"
proof -
  have a: "example_gcs False ''A'' = Inr (PDict [])"
    and b: "example_gcs False ''B'' = Inr (PDict [(''brand_voice'', PStr ''X'')])"
    by (simp_all add: example_gcs_def)
  have wa: "spec_wf_document (PDict [] :: real pyval)"
    and wb: "spec_wf_document (PDict [(''brand_voice'', PStr ''X'')] :: real pyval)"
    by (simp_all add: spec_wf_document_def)
  note t = brand_voice_last_writer_wins [OF a b, of example_isnan example_specs]
  from t wa wb obtain contexts c
    where l: "load_contexts (example_gcs False) [] [''A'', ''B''] = Inr contexts"
      and c: "compose_context_card example_isnan example_specs contexts = Inr c"
    by blast
  with t have "brand_voice c =
      (case spec_document_brand_voice (PDict [(''brand_voice'', PStr ''X'')] :: real pyval) of
         Some v \<Rightarrow> Some v | None \<Rightarrow> spec_document_brand_voice (PDict []))" by blast
  then have v: "brand_voice c = Some (PStr ''X'')"
    by (simp add: spec_document_brand_voice_def)
  from a b wa wb l c v show ?thesis
    by - (intro conjI exI [of _ c] exI [of _ contexts], assumption+)
qed

text \<open>The same two documents in the other order, \<open>A\<close> now defining the brand voice
  \<open>Y\<close>: the card carries \<open>Y\<close>.\<close>

lemma brand_voice_reversed_order:
  "\<exists>contexts c. load_contexts (example_gcs True) [] [''B'', ''A''] = Inr contexts
       \<and> compose_context_card example_isnan example_specs contexts = Inr c
       \<and> brand_voice c = Some (PStr ''Y'')"
  by (simp add: example_gcs_def load_context_file_def compose_context_card_def
        compose_step_def has_key_def)

text \<open>An id given twice keeps the position of its first occurrence in the dict of
  documents, so for the ids \<open>B\<close>, \<open>A\<close>, \<open>B\<close> the documents are processed in the order
  \<open>B\<close>, \<open>A\<close>.\<close>

lemma brand_voice_repeated_id:
  "\<exists>contexts c. load_contexts (example_gcs True) [] [''B'', ''A'', ''B''] = Inr contexts
       \<and> map fst contexts = [''B'', ''A'']
       \<and> compose_context_card example_isnan example_specs contexts = Inr c
       \<and> brand_voice c = Some (PStr ''Y'')"
  by (simp add: example_gcs_def load_context_file_def compose_context_card_def
        compose_step_def has_key_def)

section \<open>The model gateway\<close>

lemma greedy_group_no_close: "greedy_group ''```'' = None"
  by (simp add: fence_close_def)

lemma greedy_group_fenced: "greedy_group (J @ fence_close) = Some J"
proof (induction J)
  case Nil
  show ?case using greedy_group_no_close by (simp add: fence_close_def)
next
  case (Cons c J)
  then show ?case by simp
qed

lemma re_search_fenced: "re_search (fence_open @ J @ fence_close) = Some J"
proof -
  have "fence_open @ J @ fence_close = CHR ''`'' # (tl fence_open @ J @ fence_close)"
    by (simp add: fence_open_def)
  moreover have "prefix fence_open (fence_open @ J @ fence_close)" by simp
  moreover have "drop (length fence_open) (fence_open @ J @ fence_close) = J @ fence_close"
    by simp
  ultimately show ?thesis
    by (metis greedy_group_fenced option.simps(5) re_search.simps(2))
qed

lemma strip_eq_Nil: "strip s = [] \<longleftrightarrow> (\<forall>c \<in> set s. isspace c)"
proof
  assume "strip s = []"
  then have a: "\<forall>x \<in> set (dropWhile isspace s). isspace x"
    by (simp add: strip_def dropWhile_eq_Nil_conv)
  have "dropWhile isspace s = []"
  proof (rule ccontr)
    assume n: "dropWhile isspace s \<noteq> []"
    then have "hd (dropWhile isspace s) \<in> set (dropWhile isspace s)" by simp
    with a hd_dropWhile [OF n] show False by blast
  qed
  then show "\<forall>c \<in> set s. isspace c" by (simp add: dropWhile_eq_Nil_conv)
next
  assume "\<forall>c \<in> set s. isspace c"
  then show "strip s = []"
    by (auto simp: strip_def dropWhile_eq_Nil_conv dest: set_dropWhileD)
qed

lemma strip_fenced: "strip (fence_open @ J @ fence_close) \<noteq> []"
  by (simp add: strip_eq_Nil fence_open_def isspace_def)

(* value "re_search ''{\"answer\": \"ok\"}''" *)
(* value "re_search (''hello '' @ fence_open @ ''abc'' @ fence_close @ ''xx'' @ fence_close @ ''tail'')" *)


text \<open>A reply that passes the three checks and parses to a dict comes back with the
  \<open>diagnostics\<close> key set to the model's name and nothing else.\<close>

lemma parse_response_diagnostics:
  assumes "parse_response loads resp = Inr mr" and "\<not> has_key mr ''error''"
  shows "\<exists>d. loads (extract_json_str (response_text resp)) = Inr (PDict d)
           \<and> mr = AList.update ''diagnostics'' (PDict [(''model'', PStr model_name)]) d"
proof -
  from assms obtain first others where c: "candidates resp = first # others"
    by (cases "candidates resp") (auto simp: parse_response_def has_key_def)
  with assms have f: "finish_reason first = ''STOP''" and s: "strip (response_text resp) \<noteq> []"
    by (auto simp: parse_response_def has_key_def Let_def split: if_splits)
  with assms c obtain parsed
    where l: "loads (extract_json_str (response_text resp)) = Inr parsed"
      and m: "set_diagnostics_model parsed = Inr mr"
    by (auto simp: parse_response_def has_key_def Let_def split: sum.splits)
  from m obtain d where "parsed = PDict d" by (cases parsed) auto
  with l m show ?thesis by auto
qed

text \<open>
  Claim C4. For every text \<open>J\<close> that parses as JSON and carries no json-tagged fence
  itself, the extraction step gives \<open>J\<close> both for \<open>J\<close> wrapped in a json-tagged
  fence (the interior of the fence) and for \<open>J\<close> alone (the whole text), so the
  gateway returns the same parsed result for both replies.
\<close>

theorem fenced_and_bare_json_parse_alike:
  assumes "re_search J = None" and "strip J \<noteq> []" and "loads J = Inr parsed"
  shows "extract_json_str (fence_open @ J @ fence_close) = J
       \<and> extract_json_str J = J
       \<and> parse_response loads (resp\<lparr>response_text := fence_open @ J @ fence_close\<rparr>)
           = parse_response loads (resp\<lparr>response_text := J\<rparr>)"
proof -
  have a: "extract_json_str (fence_open @ J @ fence_close) = J"
    by (simp add: extract_json_str_def re_search_fenced)
  have b: "extract_json_str J = J"
    using assms(1) by (simp add: extract_json_str_def)
  have "parse_response loads (resp\<lparr>response_text := fence_open @ J @ fence_close\<rparr>)
           = parse_response loads (resp\<lparr>response_text := J\<rparr>)"
    using assms(2,3) strip_fenced [of J]
    by (simp add: parse_response_def a b Let_def split: list.splits)
  with a b show ?thesis by simp
qed


theorem fenced_and_bare_json_parse_alike_witness:
  "re_search example_text_ok = None
   \<and> strip example_text_ok \<noteq> []
   \<and> example_loads example_text_ok = Inr (PDict example_parsed_ok)
   \<and> extract_json_str (fence_open @ example_text_ok @ fence_close) = example_text_ok
   \<and> parse_response example_loads
         (example_response (fence_open @ example_text_ok @ fence_close))
       = Inr (example_parsed_ok @ [(''diagnostics'', PDict [(''model'', PStr model_name)])])"
proof -
  have n: "re_search example_text_ok = None"
    by (simp add: example_text_ok_def fence_open_def)
  have s: "strip example_text_ok \<noteq> []"
    by (simp add: strip_eq_Nil example_text_ok_def isspace_def)
  have l: "example_loads example_text_ok = Inr (PDict example_parsed_ok)"
    by (simp add: example_loads_def)
  note t = fenced_and_bare_json_parse_alike
    [of example_text_ok example_loads "PDict example_parsed_ok" "example_response []", OF n s l]
  have "parse_response example_loads (example_response example_text_ok)
          = Inr (example_parsed_ok @ [(''diagnostics'', PDict [(''model'', PStr model_name)])])"
    using s n l
    by (simp add: parse_response_def example_response_def extract_json_str_def
          example_parsed_ok_def)
  with t n s l show ?thesis by (simp add: example_response_def)
qed

text \<open>The gateway's four failure checks, in the order the code makes them.\<close>

lemma parse_response_no_candidates:
  "candidates resp = [] \<Longrightarrow>
     parse_response loads resp =
       Inr [(''error'', PStr ''No candidates returned from model.''),
            (''details'', PStr ''The model response was empty.'')]"
  by (simp add: parse_response_def)

lemma parse_response_premature_stop:
  "candidates resp = first # others \<Longrightarrow> finish_reason first \<noteq> ''STOP'' \<Longrightarrow>
     parse_response loads resp =
       Inr [(''error'', PStr ''Model generation stopped prematurely.''),
            (''details'', PStr (''Finish Reason: '' @ finish_reason first
               @ ''. This might be due to safety settings or an issue with the input.'')),
            (''safety_ratings'', PStr (safety_ratings first))]"
  by (simp add: parse_response_def)

lemma parse_response_empty_text:
  "candidates resp = first # others \<Longrightarrow> finish_reason first = ''STOP'' \<Longrightarrow>
   \<forall>c \<in> set (response_text resp). isspace c \<Longrightarrow>
     parse_response loads resp =
       Inr [(''error'', PStr ''Model returned an empty text response.''),
            (''details'', PStr ''This could be due to safety filters or a malformed prompt.'')]"
  by (auto simp: parse_response_def strip_eq_Nil Let_def)

lemma parse_response_malformed_json:
  "candidates resp = first # others \<Longrightarrow> finish_reason first = ''STOP'' \<Longrightarrow>
   \<not> (\<forall>c \<in> set (response_text resp). isspace c) \<Longrightarrow>
   loads (extract_json_str (response_text resp)) = Inl m \<Longrightarrow>
     parse_response loads resp =
       Inr [(''error'', PStr ''Failed to parse model response.''),
            (''details'', PStr m),
            (''raw_text'', PStr (response_text resp))]"
  by (auto simp: parse_response_def strip_eq_Nil Let_def)

text \<open>When none of the four checks fires the text has parsed; the result is then the
  parsed dict with its diagnostics, or a \<^verbatim>\<open>TypeError\<close> when the parsed value is not a
  dict.\<close>

lemma parse_response_parsed:
  "candidates resp = first # others \<Longrightarrow> finish_reason first = ''STOP'' \<Longrightarrow>
   \<not> (\<forall>c \<in> set (response_text resp). isspace c) \<Longrightarrow>
   loads (extract_json_str (response_text resp)) = Inr parsed \<Longrightarrow>
     parse_response loads resp = set_diagnostics_model parsed"
  by (auto simp: parse_response_def strip_eq_Nil Let_def)

section \<open>The request handler\<close>

text \<open>The handler follows its stages: once the catalog, the product, the documents,
  the card and the model's reply are there, its result is that of the gateway's parse
  and of the response step.\<close>

lemma analyze_stages:
  assumes "gcs_catalog env = Inr spec_catalog"
    and "analyze_load env request spec_catalog = Inr (specs, uri, contexts)"
    and "compose_context_card (fl_isnan env) specs contexts = Inr c"
    and "generate_content env uri c (question_or_default (question request)) = Inr resp"
  shows "analyze env request =
           (case parse_response (json_loads env) resp of
              Inl e \<Rightarrow> Raise_uncaught e
            | Inr mr \<Rightarrow> analyze_respond env mr)"
  using assms by (simp add: analyze_def load_spec_catalog_def query_gemini_def)

lemma analyze_unknown_sku:
  assumes "gcs_catalog env = Inr spec_catalog" and "map_of spec_catalog (sku request) = None"
  shows "analyze env request =
           Return_dict [(''error'', PStr (''SKU '' @ [CHR 0x27] @ sku request @ [CHR 0x27]
                                          @ '' not found in the specification catalog.''))]"
  using assms
  by (simp add: analyze_def load_spec_catalog_def analyze_load_def get_sku_specs_def)

lemma analyze_missing_image:
  assumes "gcs_catalog env = Inr spec_catalog"
    and "map_of spec_catalog (sku request) = Some specs"
    and "\<not> truthy (fl_is_zero env) (dict_get specs ''image_gcs_uri'' SNone)"
  shows "analyze env request =
           Return_dict [(''error'', PStr (''Image GCS URI not found for SKU: '' @ sku request))]"
  using assms
  by (simp add: analyze_def load_spec_catalog_def analyze_load_def get_sku_specs_def Let_def)

lemma load_contexts_not_found:
  "gcs i = Inl m \<Longrightarrow> i \<in> set ids \<Longrightarrow>
     \<exists>m'. load_contexts gcs acc ids = Inl (FileNotFoundError m')"
proof (induction ids arbitrary: acc)
  case Nil
  then show ?case by simp
next
  case (Cons j ids)
  then show ?case
    by (cases "gcs j") (auto simp: load_context_file_def)
qed

lemma analyze_context_not_found:
  assumes "gcs_catalog env = Inr spec_catalog"
    and "map_of spec_catalog (sku request) = Some specs"
    and "truthy (fl_is_zero env) (dict_get specs ''image_gcs_uri'' SNone)"
    and "gcs_context env i = Inl m" and "i \<in> set (context_ids request)"
  shows "\<exists>m'. analyze env request = Return_dict [(''error'', PStr m')]"
proof -
  from load_contexts_not_found [of "gcs_context env" i m "context_ids request" "[]", OF assms(4,5)] obtain m'
    where "load_contexts (gcs_context env) [] (context_ids request) = Inl (FileNotFoundError m')"
    by blast
  with assms(1-3) show ?thesis
    by (simp add: analyze_def load_spec_catalog_def analyze_load_def get_sku_specs_def Let_def)
qed

lemma analyze_respond_gateway_failure:
  "has_key mr ''error'' \<Longrightarrow>
     analyze_respond env mr =
       Raise_HTTPException 500
         (Model_query_failed (dict_get mr ''error'' PNone) (dict_get mr ''details'' PNone))"
  by (simp add: analyze_respond_def)

lemma example_analyze_load:
  "analyze_load (example_env t) (example_request ''SKU1'') [(''SKU1'', example_specs)]
     = Inr (example_specs, SStr ''gs://bucket/sku1.jpg'',
            [(''A'', PDict []), (''B'', PDict [(''brand_voice'', PStr ''X'')])])"
  by (simp add: analyze_load_def get_sku_specs_def example_request_def example_env_def
        example_specs_def dict_get_def example_gcs_def load_context_file_def Let_def)

lemma example_compose:
  "compose_context_card example_isnan example_specs
     [(''A'', PDict []), (''B'', PDict [(''brand_voice'', PStr ''X'')])]
   = Inr \<lparr>product_attributes =
            [(''color'', SStr ''red''), (''size'', SInt 42),
             (''image_gcs_uri'', SStr ''gs://bucket/sku1.jpg'')],
          rules = [], brand_voice = Some (PStr ''X'')\<rparr>"
  by (simp add: compose_context_card_def compose_step_def has_key_def example_specs_def
        example_isnan_def Let_def)

lemma example_analyze:
  "analyze (example_env t) (example_request ''SKU1'') =
     (case parse_response example_loads (example_response t) of
        Inl e \<Rightarrow> Raise_uncaught e
      | Inr mr \<Rightarrow> analyze_respond (example_env t) mr)"
proof -
  have "analyze (example_env t) (example_request ''SKU1'') =
     (case parse_response (json_loads (example_env t)) (example_response t) of
        Inl e \<Rightarrow> Raise_uncaught e
      | Inr mr \<Rightarrow> analyze_respond (example_env t) mr)"
    by (rule analyze_stages [OF _ example_analyze_load])
       (simp_all add: example_env_def example_compose)
  then show ?thesis by (simp add: example_env_def)
qed

text \<open>
  Claim C5 (the code departs from it). The four checks above are made in the claimed
  order, but they are not all the ways the gateway fails: a reply that passes the three
  checks before parsing and whose text is the JSON array \<^verbatim>\<open>[1, 2]\<close> parses, so the
  malformed-JSON check does not fire; the assignment of the diagnostics then raises a
  \<^verbatim>\<open>TypeError\<close> that the gateway does not catch, and the handler ends with that
  exception.
\<close>

theorem gateway_type_error_on_json_array:
  "parse_response example_loads (example_response example_text_list) = Inl TypeError
   \<and> analyze (example_env example_text_list) (example_request ''SKU1'')
       = Raise_uncaught TypeError"
proof -
  have l: "example_loads example_text_list = Inr (PList [PInt 1, PInt 2])"
    by (simp add: example_loads_def example_text_list_def example_text_ok_def
          example_text_tokens_def example_text_no_compliance_def)
  have n: "re_search example_text_list = None"
    by (simp add: example_text_list_def fence_open_def)
  have s: "strip example_text_list \<noteq> []"
    by (simp add: strip_eq_Nil example_text_list_def isspace_def)
  have p: "parse_response example_loads (example_response example_text_list) = Inl TypeError"
    using l n s
    by (simp add: parse_response_def example_response_def extract_json_str_def)
  then show ?thesis by (simp add: example_analyze)
qed

text \<open>For a SKU that the catalog does not have, the handler returns a dict whose only
  key is \<open>error\<close>.\<close>

lemma example_unknown_sku:
  "analyze (example_env example_text_ok) (example_request ''SKU9'')
     = Return_dict
         [(''error'', PStr (''SKU '' @ [CHR 0x27] @ ''SKU9'' @ [CHR 0x27]
                            @ '' not found in the specification catalog.''))]"
proof -
  have "analyze (example_env example_text_ok) (example_request ''SKU9'')
     = Return_dict
         [(''error'', PStr (''SKU '' @ [CHR 0x27] @ sku (example_request ''SKU9'' :: real AnalyzeRequest)
                            @ [CHR 0x27] @ '' not found in the specification catalog.''))]"
    by (rule analyze_unknown_sku [of _ "[(''SKU1'', example_specs)]"])
       (simp_all add: example_env_def example_request_def)
  then show ?thesis by (simp add: example_request_def)
qed

text \<open>
  Claim C3. For every model output whose \<open>diagnostics\<close> is absent or a mapping (every
  output the gateway parsed successfully is such), and every elapsed time, the step
  before validation succeeds; afterwards \<open>diagnostics\<close> is a mapping whose \<open>latency\<close>
  is the elapsed time rounded to two decimals and whose \<open>tokens\<close> is 0 if the
  mapping had no \<open>tokens\<close> and is unchanged otherwise; the rest of the mapping and of
  the output is unchanged.
\<close>

theorem diagnostics_injection:
  assumes "map_of mr ''diagnostics'' = None \<or> (\<exists>dg. map_of mr ''diagnostics'' = Some (PDict dg))"
  shows "\<exists>mr' dg'. inject_diagnostics round2 lat mr = Inr mr'
           \<and> map_of mr' ''diagnostics'' = Some (PDict dg')
           \<and> map_of dg' ''latency'' = Some (PFloat (round2 lat))
           \<and> map_of dg' ''tokens'' =
               (case map_of (diagnostics_of mr) ''tokens'' of
                  None \<Rightarrow> Some (PInt 0) | Some t \<Rightarrow> Some t)
           \<and> (\<forall>k. k \<noteq> ''latency'' \<and> k \<noteq> ''tokens'' \<longrightarrow>
                  map_of dg' k = map_of (diagnostics_of mr) k)
           \<and> (\<forall>k. k \<noteq> ''diagnostics'' \<longrightarrow> map_of mr' k = map_of mr k)"
  using assms
  by (auto simp: inject_diagnostics_def Let_def has_key_def diagnostics_of_def update_conv'
           split: option.splits)

theorem diagnostics_injection_witness:
  "map_of example_parsed_ok ''diagnostics'' = None
   \<and> (\<exists>mr' dg'. inject_diagnostics (\<lambda>x. if x = 1.234 then 1.23 else x) 1.234
                     example_parsed_ok = Inr mr'
         \<and> map_of mr' ''diagnostics'' = Some (PDict dg')
         \<and> map_of dg' ''latency'' = Some (PFloat 1.23)
         \<and> map_of dg' ''tokens'' = Some (PInt 0)
         \<and> map_of mr' ''answer'' = Some (PStr ''ok''))"
proof -
  have a: "map_of example_parsed_ok ''diagnostics'' = None"
    by (simp add: example_parsed_ok_def)
  then have h: "map_of example_parsed_ok ''diagnostics'' = None
      \<or> (\<exists>dg. map_of example_parsed_ok ''diagnostics'' = Some (PDict dg))" by simp
  have tk: "map_of (diagnostics_of example_parsed_ok) ''tokens'' = None"
    by (simp add: diagnostics_of_def a)
  have ans: "map_of example_parsed_ok ''answer'' = Some (PStr ''ok'')"
    by (simp add: example_parsed_ok_def)
  from diagnostics_injection [OF h, of "\<lambda>x. if x = 1.234 then 1.23 else x" "1.234"]
  obtain mr' dg' where
    i: "inject_diagnostics (\<lambda>x. if x = 1.234 then 1.23 else x) 1.234 example_parsed_ok = Inr mr'"
    and d: "map_of mr' ''diagnostics'' = Some (PDict dg')"
    and l: "map_of dg' ''latency'' = Some (PFloat (if (1.234::real) = 1.234 then 1.23 else 1.234))"
    and t: "map_of dg' ''tokens'' =
       (case map_of (diagnostics_of example_parsed_ok) ''tokens'' of
          None \<Rightarrow> Some (PInt 0) | Some t \<Rightarrow> Some t)"
    and r: "\<forall>k. k \<noteq> ''diagnostics'' \<longrightarrow> map_of mr' k = map_of example_parsed_ok k"
    by (elim exE conjE) (rule that, assumption+)
  from l have l': "map_of dg' ''latency'' = Some (PFloat 1.23)" by simp
  from t tk have t': "map_of dg' ''tokens'' = Some (PInt 0)" by simp
  have "''answer'' \<noteq> ''diagnostics''" by simp
  with r ans have r': "map_of mr' ''answer'' = Some (PStr ''ok'')" by simp
  from a i d l' t' r' show ?thesis
    by - (intro conjI exI [of _ mr'] exI [of _ dg'], assumption+)
qed

lemma question_or_default_nonempty: "question_or_default q \<noteq> []"
  by (simp add: question_or_default_def default_question_def split: option.splits)

lemma analyze_load_generate_content [simp]:
  "analyze_load (env\<lparr>generate_content := g\<rparr>) request spec_catalog
     = analyze_load env request spec_catalog"
  by (simp add: analyze_load_def Let_def cong: sum.case_cong if_cong)

lemma analyze_respond_generate_content [simp]:
  "analyze_respond (env\<lparr>generate_content := g\<rparr>) mr = analyze_respond env mr"
  by (simp add: analyze_respond_def cong: sum.case_cong if_cong)

lemma analyze_load_question [simp]:
  "analyze_load env (request\<lparr>question := q\<rparr>) spec_catalog
     = analyze_load env request spec_catalog"
  by (simp add: analyze_load_def Let_def cong: sum.case_cong if_cong)

text \<open>A request whose question is empty ends as one without question and as one that
  asks the default prompt; the handler's result does not depend on what the model
  would answer to an empty question.\<close>

lemma empty_question_outcomes:
  "analyze env (request\<lparr>question := Some []\<rparr>) = analyze env (request\<lparr>question := None\<rparr>)
   \<and> analyze env (request\<lparr>question := None\<rparr>)
       = analyze env (request\<lparr>question := Some default_question\<rparr>)
   \<and> question_or_default (Some []) = default_question
   \<and> question_or_default (question request) \<noteq> []
   \<and> ((\<forall>uri c q. q \<noteq> [] \<longrightarrow> g uri c q = generate_content env uri c q) \<longrightarrow>
        analyze (env\<lparr>generate_content := g\<rparr>) request = analyze env request)"
proof (intro conjI impI)
  show "analyze env (request\<lparr>question := Some []\<rparr>) = analyze env (request\<lparr>question := None\<rparr>)"
    by (simp add: analyze_def question_or_default_def cong: sum.case_cong)
  show "analyze env (request\<lparr>question := None\<rparr>)
       = analyze env (request\<lparr>question := Some default_question\<rparr>)"
    by (simp add: analyze_def question_or_default_def cong: sum.case_cong)
  show "question_or_default (Some []) = default_question"
    by (simp add: question_or_default_def)
  show "question_or_default (question request) \<noteq> []"
    by (rule question_or_default_nonempty)
next
  assume "\<forall>uri c q. q \<noteq> [] \<longrightarrow> g uri c q = generate_content env uri c q"
  then have "\<And>uri c. g uri c (question_or_default (question request))
      = generate_content env uri c (question_or_default (question request))"
    using question_or_default_nonempty by blast
  then show "analyze (env\<lparr>generate_content := g\<rparr>) request = analyze env request"
    by (simp add: analyze_def query_gemini_def cong: sum.case_cong)
qed

section \<open>Response validation\<close>

text \<open>Validation fails exactly when the boolean reading of the schema says so.\<close>

lemma isl_both: "isl (both x y) \<longleftrightarrow> isl x \<or> isl y"
  by (cases x; cases y) (simp_all add: both_def)

lemma both_eq_Inr: "both x y = Inr p \<longleftrightarrow> x = Inr (fst p) \<and> y = Inr (snd p)"
  by (cases x; cases y; cases p) (auto simp: both_def)

lemma isl_all_valid: "isl (all_valid xs) \<longleftrightarrow> list_ex isl xs"
proof (induction xs)
  case Nil
  show ?case by simp
next
  case (Cons x xs)
  have "isl (all_valid (x # xs)) \<longleftrightarrow> isl (both x (all_valid xs))"
    by (simp split: sum.splits)
  with Cons show ?case by (simp add: isl_both)
qed

lemma isl_and_then: "isl (and_then m f) \<longleftrightarrow> (case m of Inl e \<Rightarrow> True | Inr x \<Rightarrow> isl (f x))"
  by (cases m) simp_all

lemma isl_required:
  "isl (required d k loc f) \<longleftrightarrow> field_violates d k (\<lambda>v. isl (f (loc @ [Key k]) v))"
  by (simp add: required_def field_violates_def split: option.splits)

lemma required_eq_Inr:
  "required d k loc f = Inr x \<longleftrightarrow> (\<exists>v. map_of d k = Some v \<and> f (loc @ [Key k]) v = Inr x)"
  by (simp add: required_def split: option.splits)

lemma isl_validate_str: "isl (validate_str co loc v) \<longleftrightarrow> not_str co v"
  by (cases v) (simp_all add: validate_str_def not_str_def coerced_def split: option.splits)

lemma validate_dict_as_dict:
  "validate_dict co loc v =
     (case as_dict co v of None \<Rightarrow> Inl [(loc, WrongType)] | Some d \<Rightarrow> Inr d)"
  by (cases v) (simp_all add: validate_dict_def as_dict_def coerced_def split: option.splits)

lemma validate_list_as_list:
  "validate_list co loc v =
     (case as_list co v of None \<Rightarrow> Inl [(loc, WrongType)] | Some xs \<Rightarrow> Inr xs)"
  by (cases v) (simp_all add: validate_list_def as_list_def coerced_def split: option.splits)

lemma list_ex_enumerate:
  "list_ex (\<lambda>r. isl r) (map (\<lambda>ix. f (fst ix) (snd ix)) (enumerate n xs))
     \<longleftrightarrow> (\<exists>i < length xs. isl (f (n + i) (xs ! i)))"
proof (induction xs arbitrary: n)
  case Nil
  show ?case by simp
next
  case (Cons x xs)
  have "(\<exists>i < length (x # xs). isl (f (n + i) ((x # xs) ! i)))
      \<longleftrightarrow> isl (f n x) \<or> (\<exists>i < length xs. isl (f (Suc n + i) (xs ! i)))"
    by (auto simp: less_Suc_eq_0_disj)
  with Cons [of "Suc n"] show ?case by simp
qed

lemma isl_validate_List_str: "isl (validate_List_str co loc v) \<longleftrightarrow> bad_str_list co v"
proof (cases "as_list co v")
  case None
  then show ?thesis
    by (simp add: validate_List_str_def validate_list_as_list bad_str_list_def)
next
  case (Some xs)
  have "list_ex isl (map (\<lambda>ix. validate_str co (loc @ [Index (fst ix)]) (snd ix))
                      (enumerate 0 xs))
      \<longleftrightarrow> (\<exists>i < length xs. isl (validate_str co (loc @ [Index (0 + i)]) (xs ! i)))"
    by (rule list_ex_enumerate [of "\<lambda>i x. validate_str co (loc @ [Index i]) x" 0 xs])
  also have "\<dots> \<longleftrightarrow> list_ex (not_str co) xs"
    by (simp add: isl_validate_str list_ex_length)
  finally show ?thesis using Some
    by (simp add: validate_List_str_def validate_list_as_list bad_str_list_def isl_all_valid)
qed

lemma isl_and_then_Inr: "isl (and_then m (\<lambda>x. Inr (g x))) \<longleftrightarrow> isl m"
  by (cases m) simp_all

lemma isl_validate_Grounding: "isl (validate_Grounding co loc v) \<longleftrightarrow> bad_grounding co v"
proof (cases "as_dict co v")
  case None
  then show ?thesis
    by (simp add: validate_Grounding_def bad_grounding_def validate_dict_as_dict)
next
  case (Some d)
  then show ?thesis
    by (simp add: validate_Grounding_def bad_grounding_def validate_dict_as_dict
          isl_and_then_Inr isl_both isl_required isl_validate_List_str)
qed

lemma isl_validate_Attribute: "isl (validate_Attribute co loc v) \<longleftrightarrow> bad_attribute co v"
proof (cases "as_dict co v")
  case None
  then show ?thesis
    by (simp add: validate_Attribute_def bad_attribute_def validate_dict_as_dict)
next
  case (Some d)
  then show ?thesis
    by (simp add: validate_Attribute_def bad_attribute_def validate_dict_as_dict
          isl_and_then_Inr isl_both isl_required isl_validate_str)
qed

lemma isl_validate_Dict:
  "isl (validate_Dict co f loc v) \<longleftrightarrow>
     (case as_dict co v of
        None \<Rightarrow> True
      | Some d \<Rightarrow> list_ex (\<lambda>kv. isl (f (loc @ [Key (fst kv)]) (snd kv))) d)"
proof (cases "as_dict co v")
  case None
  then show ?thesis by (simp add: validate_Dict_def validate_dict_as_dict)
next
  case (Some d)
  have "list_ex isl (map (\<lambda>kv. and_then (f (loc @ [Key (fst kv)]) (snd kv))
                               (\<lambda>y. Inr (fst kv, y))) d)
      \<longleftrightarrow> list_ex (\<lambda>kv. isl (f (loc @ [Key (fst kv)]) (snd kv))) d"
    by (induction d) (simp_all add: isl_and_then_Inr)
  with Some show ?thesis
    by (simp add: validate_Dict_def validate_dict_as_dict isl_all_valid)
qed

lemma isl_validate_dict: "isl (validate_dict co loc v) \<longleftrightarrow> as_dict co v = None"
  by (simp add: validate_dict_as_dict split: option.splits)

lemma isl_validate_Structured: "isl (validate_Structured co loc v) \<longleftrightarrow> bad_structured co v"
proof (cases "as_dict co v")
  case None
  then show ?thesis
    by (simp add: validate_Structured_def bad_structured_def validate_dict_as_dict)
next
  case (Some d)
  have a: "\<And>l x. isl (validate_Dict co (validate_Attribute co) l x) \<longleftrightarrow> bad_attributes co x"
    by (simp add: isl_validate_Dict isl_validate_Attribute bad_attributes_def
          split: option.splits)
  have c: "\<And>l x. isl (validate_Dict co (validate_dict co) l x) \<longleftrightarrow> bad_compliance co x"
    by (simp add: isl_validate_Dict isl_validate_dict bad_compliance_def
          split: option.splits)
  from Some show ?thesis
    by (simp add: validate_Structured_def bad_structured_def validate_dict_as_dict
          isl_and_then_Inr isl_both isl_required a c)
qed

lemma isl_validate_AnalyzeResponse:
  "isl (validate_AnalyzeResponse co mr) \<longleftrightarrow>
     spec_violates_schema co mr
     \<or> field_violates mr ''diagnostics'' (\<lambda>v. isl (validate_Diagnostics co [Key ''diagnostics''] v))"
  by (simp add: validate_AnalyzeResponse_def spec_violates_schema_def isl_and_then_Inr isl_both
        isl_required isl_validate_str isl_validate_Grounding isl_validate_Structured)

lemma inject_gateway_output:
  assumes "mr = AList.update ''diagnostics'' (PDict [(''model'', PStr model_name)]) d"
  shows "\<exists>mr'. inject_diagnostics rnd lat mr = Inr mr'
           \<and> map_of mr' ''diagnostics'' =
               Some (PDict [(''model'', PStr model_name), (''latency'', PFloat (rnd lat)),
                            (''tokens'', PInt 0)])
           \<and> (\<forall>k. k \<noteq> ''diagnostics'' \<longrightarrow> map_of mr' k = map_of d k)"
  using assms by (simp add: inject_diagnostics_def has_key_def update_conv' Let_def)

lemma spec_violates_schema_cong:
  assumes "map_of mr' ''answer'' = map_of mr ''answer''"
    and "map_of mr' ''grounding'' = map_of mr ''grounding''"
    and "map_of mr' ''structured'' = map_of mr ''structured''"
  shows "spec_violates_schema co mr' = spec_violates_schema co mr"
  using assms by (simp add: spec_violates_schema_def field_violates_def)

lemma validate_Diagnostics_exact:
  "validate_Diagnostics co loc
     (PDict [(''model'', PStr m), (''latency'', PFloat l), (''tokens'', PInt t)])
   = Inr \<lparr>latency = l, model = m, tokens = t\<rparr>"
  by (simp add: validate_Diagnostics_def validate_dict_def required_def both_def
        validate_float_def validate_str_def validate_int_def)

lemma validate_AnalyzeResponse_diagnostics:
  assumes "validate_AnalyzeResponse co mr = Inr r"
  shows "\<exists>v. map_of mr ''diagnostics'' = Some v
           \<and> validate_Diagnostics co [Key ''diagnostics''] v = Inr (diagnostics r)"
  using assms
  by (auto simp: validate_AnalyzeResponse_def and_then_eq_Inr both_eq_Inr required_eq_Inr)

lemma except_load_not_response: "except_load e \<noteq> Return_response r"
  by (cases e) simp_all

lemma analyze_load_Inl:
  "analyze_load env request spec_catalog = Inl ended \<Longrightarrow> ended \<noteq> Return_response r"
  by (auto simp: analyze_load_def Let_def except_load_not_response
           split: sum.splits if_splits)

lemma analyze_Return_response:
  assumes "analyze env request = Return_response r"
  shows "\<exists>resp mr. parse_response (json_loads env) resp = Inr mr
           \<and> analyze_respond env mr = Return_response r"
  using assms
  by (auto simp: analyze_def query_gemini_def and_then_eq_Inr
           split: sum.splits dest: analyze_load_Inl)

lemma analyze_respond_Return_response:
  assumes "analyze_respond env mr = Return_response r"
  shows "\<not> has_key mr ''error''
       \<and> (\<exists>mr'. inject_diagnostics (fl_round2 env) (elapsed env) mr = Inr mr'
              \<and> validate_AnalyzeResponse (pydantic env) mr' = Inr r)"
  using assms by (auto simp: analyze_respond_def split: if_splits sum.splits)

text \<open>The example replies through the gateway and the response step.\<close>

lemma example_loads_ok: "example_loads example_text_ok = Inr (PDict example_parsed_ok)"
  by (simp add: example_loads_def)

lemma example_loads_tokens:
  "example_loads example_text_tokens =
     Inr (PDict (example_parsed_ok @ [(''diagnostics'', PDict [(''tokens'', PInt 999)])]))"
  by (simp add: example_loads_def example_text_ok_def example_text_tokens_def)

lemma example_loads_no_compliance:
  "example_loads example_text_no_compliance =
     Inr (PDict [(''answer'', PStr ''ok''),
                 (''grounding'', PDict [(''citations'', PList []), (''visual_refs'', PList [])]),
                 (''structured'', PDict [(''attributes'', PDict [])])])"
  by (simp add: example_loads_def example_text_ok_def example_text_tokens_def
        example_text_no_compliance_def)

lemma example_parse_ok:
  "parse_response example_loads (example_response example_text_ok)
     = Inr (example_parsed_ok @ [(''diagnostics'', PDict [(''model'', PStr model_name)])])"
proof -
  have n: "re_search example_text_ok = None"
    by (simp add: example_text_ok_def fence_open_def)
  have s: "strip example_text_ok \<noteq> []"
    by (simp add: strip_eq_Nil example_text_ok_def isspace_def)
  from n s example_loads_ok show ?thesis
    by (simp add: parse_response_def example_response_def extract_json_str_def
          example_parsed_ok_def)
qed

lemma example_parse_tokens:
  "parse_response example_loads (example_response example_text_tokens)
     = Inr (example_parsed_ok @ [(''diagnostics'', PDict [(''model'', PStr model_name)])])"
proof -
  have n: "re_search example_text_tokens = None"
    by (simp add: example_text_tokens_def fence_open_def)
  have s: "strip example_text_tokens \<noteq> []"
    by (simp add: strip_eq_Nil example_text_tokens_def isspace_def)
  from n s example_loads_tokens show ?thesis
    by (simp add: parse_response_def example_response_def extract_json_str_def
          example_parsed_ok_def)
qed

lemma example_parse_no_compliance:
  "parse_response example_loads (example_response example_text_no_compliance)
     = Inr [(''answer'', PStr ''ok''),
            (''grounding'', PDict [(''citations'', PList []), (''visual_refs'', PList [])]),
            (''structured'', PDict [(''attributes'', PDict [])]),
            (''diagnostics'', PDict [(''model'', PStr model_name)])]"
proof -
  have n: "re_search example_text_no_compliance = None"
    by (simp add: example_text_no_compliance_def fence_open_def)
  have s: "strip example_text_no_compliance \<noteq> []"
    by (simp add: strip_eq_Nil example_text_no_compliance_def isspace_def)
  from n s example_loads_no_compliance show ?thesis
    by (simp add: parse_response_def example_response_def extract_json_str_def)
qed

lemma example_respond_ok:
  "analyze_respond (example_env t)
     (example_parsed_ok @ [(''diagnostics'', PDict [(''model'', PStr model_name)])])
   = Return_response
       \<lparr>answer = ''ok'', grounding = \<lparr>citations = [], visual_refs = []\<rparr>,
        structured = \<lparr>attributes = [], compliance = []\<rparr>,
        diagnostics = \<lparr>latency = 1.23, model = model_name, tokens = 0\<rparr>\<rparr>"
  by (simp add: analyze_respond_def has_key_def example_parsed_ok_def example_env_def
        inject_diagnostics_def Let_def validate_AnalyzeResponse_def required_def both_def
        validate_str_def validate_Grounding_def validate_dict_def validate_List_str_def
        validate_list_def validate_Structured_def validate_Dict_def
        validate_Diagnostics_def validate_float_def validate_int_def)

text \<open>
  Claim C9. Whenever the handler returns a validated response, its
  \<open>diagnostics.tokens\<close> is 0 and its \<open>diagnostics.model\<close> is the fixed model
  identifier (and its latency the rounded elapsed time): the gateway replaces whatever
  \<open>diagnostics\<close> the model emitted by a mapping with the model's name only, and the
  handler then finds no \<open>tokens\<close> and puts 0.
\<close>

theorem validated_diagnostics_fixed:
  assumes "analyze env request = Return_response r"
  shows "tokens (diagnostics r) = 0
       \<and> model (diagnostics r) = model_name
       \<and> latency (diagnostics r) = fl_round2 env (elapsed env)"
proof -
  from analyze_Return_response [OF assms] obtain resp mr
    where p: "parse_response (json_loads env) resp = Inr mr"
      and a: "analyze_respond env mr = Return_response r" by blast
  from analyze_respond_Return_response [OF a] obtain mr'
    where e: "\<not> has_key mr ''error''"
      and i: "inject_diagnostics (fl_round2 env) (elapsed env) mr = Inr mr'"
      and v: "validate_AnalyzeResponse (pydantic env) mr' = Inr r" by blast
  from parse_response_diagnostics [OF p e] obtain d
    where "mr = AList.update ''diagnostics'' (PDict [(''model'', PStr model_name)]) d"
    by blast
  from inject_gateway_output [OF this, of "fl_round2 env" "elapsed env"] i
  have "map_of mr' ''diagnostics'' =
          Some (PDict [(''model'', PStr model_name),
                       (''latency'', PFloat (fl_round2 env (elapsed env))),
                       (''tokens'', PInt 0)])" by auto
  with validate_AnalyzeResponse_diagnostics [OF v]
  have "diagnostics r =
          \<lparr>latency = fl_round2 env (elapsed env), model = model_name, tokens = 0\<rparr>"
    by (auto simp: validate_Diagnostics_exact)
  then show ?thesis by simp
qed

theorem validated_diagnostics_fixed_witness:
  "example_loads example_text_tokens =
     Inr (PDict (example_parsed_ok @ [(''diagnostics'', PDict [(''tokens'', PInt 999)])]))
   \<and> (\<exists>r. analyze (example_env example_text_tokens) (example_request ''SKU1'')
             = Return_response r
          \<and> tokens (diagnostics r) = 0 \<and> model (diagnostics r) = model_name)"
proof -
  have a: "analyze (example_env example_text_tokens) (example_request ''SKU1'')
     = Return_response
       \<lparr>answer = ''ok'', grounding = \<lparr>citations = [], visual_refs = []\<rparr>,
        structured = \<lparr>attributes = [], compliance = []\<rparr>,
        diagnostics = \<lparr>latency = 1.23, model = model_name, tokens = 0\<rparr>\<rparr>"
    by (simp add: example_analyze example_parse_tokens example_respond_ok)
  from validated_diagnostics_fixed [OF a] a example_loads_tokens show ?thesis by simp
qed

text \<open>The ordinary reply of the model, which has no \<open>diagnostics\<close>, is validated and
  returned with the diagnostics the gateway and the handler supply.\<close>

lemma example_analyze_ok:
  "example_loads example_text_ok = Inr (PDict example_parsed_ok)
   \<and> map_of example_parsed_ok ''diagnostics'' = None
   \<and> analyze (example_env example_text_ok) (example_request ''SKU1'')
       = Return_response
           \<lparr>answer = ''ok'', grounding = \<lparr>citations = [], visual_refs = []\<rparr>,
            structured = \<lparr>attributes = [], compliance = []\<rparr>,
            diagnostics = \<lparr>latency = 1.23, model = model_name, tokens = 0\<rparr>\<rparr>"
proof -
  have "map_of example_parsed_ok ''diagnostics'' = None"
    by (simp add: example_parsed_ok_def)
  moreover have "analyze (example_env example_text_ok) (example_request ''SKU1'')
       = Return_response
           \<lparr>answer = ''ok'', grounding = \<lparr>citations = [], visual_refs = []\<rparr>,
            structured = \<lparr>attributes = [], compliance = []\<rparr>,
            diagnostics = \<lparr>latency = 1.23, model = model_name, tokens = 0\<rparr>\<rparr>"
    by (simp add: example_analyze example_parse_ok example_respond_ok)
  ultimately show ?thesis using example_loads_ok by simp
qed

section \<open>Rejection of a model output that violates the schema\<close>

lemma as_dict_PDict [simp]: "as_dict co (PDict d) = Some d"
  by (simp add: as_dict_def)

lemma spec_attribute_incomplete_bad:
  "spec_attribute_incomplete v \<Longrightarrow> bad_attribute co v"
  by (cases v) (auto simp: spec_attribute_incomplete_def bad_attribute_def field_violates_def)

lemma spec_missing_required_violates:
  assumes "spec_missing_required mr"
  shows "spec_violates_schema co mr"
proof -
  have g: "bad_grounding co v"
    if "case v of PDict g \<Rightarrow> map_of g ''citations'' = None \<or> map_of g ''visual_refs'' = None
        | _ \<Rightarrow> False" for v
    using that by (cases v) (auto simp: bad_grounding_def field_violates_def)
  have a: "bad_attributes co v"
    if "case v of PDict entries \<Rightarrow> list_ex (\<lambda>kv. spec_attribute_incomplete (snd kv)) entries
        | _ \<Rightarrow> False" for v
    using that
    by (cases v) (auto simp: bad_attributes_def list_ex_iff dest: spec_attribute_incomplete_bad)
  have st: "bad_structured co v"
    if "case v of PDict st \<Rightarrow>
              map_of st ''compliance'' = None
              \<or> (case map_of st ''attributes'' of
                    None \<Rightarrow> True
                  | Some (PDict entries) \<Rightarrow>
                      list_ex (\<lambda>kv. spec_attribute_incomplete (snd kv)) entries
                  | Some _ \<Rightarrow> False)
        | _ \<Rightarrow> False" for v
  proof (cases v)
    case (PDict d)
    show ?thesis
    proof (cases "map_of d ''attributes''")
      case None
      with PDict show ?thesis by (simp add: bad_structured_def field_violates_def)
    next
      case (Some w)
      with that PDict have "map_of d ''compliance'' = None
          \<or> (case w of PDict entries \<Rightarrow>
                 list_ex (\<lambda>kv. spec_attribute_incomplete (snd kv)) entries | _ \<Rightarrow> False)"
        by (cases w) auto
      with a [of w] Some PDict show ?thesis
        by (auto simp: bad_structured_def field_violates_def)
    qed
  qed (use that in auto)
  from assms have "map_of mr ''answer'' = None
    \<or> (case map_of mr ''grounding'' of None \<Rightarrow> True
        | Some (PDict g) \<Rightarrow> map_of g ''citations'' = None \<or> map_of g ''visual_refs'' = None
        | Some _ \<Rightarrow> False)
    \<or> (case map_of mr ''structured'' of
            None \<Rightarrow> True
          | Some (PDict st) \<Rightarrow>
              map_of st ''compliance'' = None
              \<or> (case map_of st ''attributes'' of
                    None \<Rightarrow> True
                  | Some (PDict entries) \<Rightarrow>
                      list_ex (\<lambda>kv. spec_attribute_incomplete (snd kv)) entries
                  | Some _ \<Rightarrow> False)
          | Some _ \<Rightarrow> False)"
    unfolding spec_missing_required_def .
  then show ?thesis
  proof (elim disjE)
    assume "map_of mr ''answer'' = None"
    then show ?thesis by (simp add: spec_violates_schema_def field_violates_def)
  next
    assume "case map_of mr ''grounding'' of None \<Rightarrow> True
        | Some (PDict g) \<Rightarrow> map_of g ''citations'' = None \<or> map_of g ''visual_refs'' = None
        | Some _ \<Rightarrow> False"
    then show ?thesis
      by (cases "map_of mr ''grounding''")
         (auto simp: spec_violates_schema_def field_violates_def intro: g)
  next
    assume "case map_of mr ''structured'' of
            None \<Rightarrow> True
          | Some (PDict st) \<Rightarrow>
              map_of st ''compliance'' = None
              \<or> (case map_of st ''attributes'' of
                    None \<Rightarrow> True
                  | Some (PDict entries) \<Rightarrow>
                      list_ex (\<lambda>kv. spec_attribute_incomplete (snd kv)) entries
                  | Some _ \<Rightarrow> False)
          | Some _ \<Rightarrow> False"
    then show ?thesis
      by (cases "map_of mr ''structured''")
         (auto simp: spec_violates_schema_def field_violates_def intro: st)
  qed
qed


text \<open>A gateway output that violates the model's part of the schema never becomes a
  response: the handler raises \<^verbatim>\<open>HTTPException\<close> with status 500.\<close>

lemma analyze_respond_rejects:
  assumes "parse_response (json_loads env) resp = Inr mr"
    and "spec_violates_schema (pydantic env) mr"
  shows "(\<forall>r. analyze_respond env mr \<noteq> Return_response r)
       \<and> (\<exists>d. analyze_respond env mr = Raise_HTTPException 500 d)
       \<and> (has_key mr ''error''
            \<or> (\<exists>errs. analyze_respond env mr = Raise_HTTPException 500 (Invalid_data_format errs)))"
proof (cases "has_key mr ''error''")
  case True
  then show ?thesis by (simp add: analyze_respond_gateway_failure)
next
  case False
  from parse_response_diagnostics [OF assms(1) False] obtain d
    where m: "mr = AList.update ''diagnostics'' (PDict [(''model'', PStr model_name)]) d"
    by blast
  from inject_gateway_output [OF m, of "fl_round2 env" "elapsed env"] obtain mr'
    where i: "inject_diagnostics (fl_round2 env) (elapsed env) mr = Inr mr'"
      and k: "\<forall>k. k \<noteq> ''diagnostics'' \<longrightarrow> map_of mr' k = map_of d k" by blast
  from m have "\<forall>k. k \<noteq> ''diagnostics'' \<longrightarrow> map_of mr k = map_of d k"
    by (simp add: update_conv')
  with k have "spec_violates_schema (pydantic env) mr' = spec_violates_schema (pydantic env) mr"
    by (intro spec_violates_schema_cong) simp_all
  with assms(2) have "isl (validate_AnalyzeResponse (pydantic env) mr')"
    by (simp add: isl_validate_AnalyzeResponse)
  then obtain errs where "validate_AnalyzeResponse (pydantic env) mr' = Inl errs"
    by (auto simp: isl_def)
  with i False show ?thesis by (simp add: analyze_respond_def)
qed





section \<open>The status of a failed request\<close>

lemma analyze_stages_query:
  assumes "gcs_catalog env = Inr spec_catalog"
    and "analyze_load env request spec_catalog = Inr (specs, uri, contexts)"
    and "compose_context_card (fl_isnan env) specs contexts = Inr c"
  shows "analyze env request =
           (case query_gemini (json_loads env) (generate_content env) uri c
                   (question_or_default (question request)) of
              Inl e \<Rightarrow> Raise_uncaught e
            | Inr mr \<Rightarrow> analyze_respond env mr)"
  using assms by (simp add: analyze_def load_spec_catalog_def)

lemma except_load_cases:
  "(\<exists>m. except_load e = Return_dict [(''error'', PStr m)]) \<or> (\<exists>x. except_load e = Raise_uncaught x)"
  by (cases e) simp_all

lemma analyze_load_Inl_cases:
  assumes "analyze_load env request spec_catalog = Inl ended"
  shows "(\<exists>m. ended = Return_dict [(''error'', PStr m)]) \<or> (\<exists>x. ended = Raise_uncaught x)"
proof -
  from assms have "(\<exists>e. ended = except_load e)
      \<or> ended = Return_dict [(''error'', PStr (''Image GCS URI not found for SKU: '' @ sku request))]"
    by (auto simp: analyze_load_def Let_def split: sum.splits if_splits)
  then show ?thesis using except_load_cases by (metis (no_types))
qed

lemma analyze_respond_cases:
  "(\<exists>d. analyze_respond env mr = Raise_HTTPException 500 d)
   \<or> (\<exists>x. analyze_respond env mr = Raise_uncaught x)
   \<or> (\<exists>r. analyze_respond env mr = Return_response r)"
  by (simp add: analyze_respond_def split: sum.splits)

lemma analyze_cases:
  "(\<exists>m. analyze env request = Return_dict [(''error'', PStr m)])
   \<or> (\<exists>d. analyze env request = Raise_HTTPException 500 d)
   \<or> (\<exists>x. analyze env request = Raise_uncaught x)
   \<or> (\<exists>r. analyze env request = Return_response r)"
proof (cases "load_spec_catalog (gcs_catalog env)")
  case (Inl e)
  then show ?thesis by (simp add: analyze_def)
next
  case cat: (Inr spec_catalog)
  show ?thesis
  proof (cases "analyze_load env request spec_catalog")
    case (Inl ended)
    with analyze_load_Inl_cases [OF Inl] cat show ?thesis
      by (auto simp: analyze_def)
  next
    case ld: (Inr loaded)
    show ?thesis
    proof (cases "compose_context_card (fl_isnan env) (fst loaded) (snd (snd loaded))")
      case (Inl e)
      with cat ld show ?thesis by (simp add: analyze_def)
    next
      case c: (Inr context_card)
      show ?thesis
      proof (cases "query_gemini (json_loads env) (generate_content env)
                      (fst (snd loaded)) context_card (question_or_default (question request))")
        case (Inl e)
        with cat ld c show ?thesis by (simp add: analyze_def)
      next
        case (Inr mr)
        with cat ld c have "analyze env request = analyze_respond env mr"
          by (simp add: analyze_def)
        with analyze_respond_cases [of env mr] show ?thesis by auto
      qed
    qed
  qed
qed

lemma validate_error_dict: "isl (validate_AnalyzeResponse co [(''error'', v)])"
  by (simp add: isl_validate_AnalyzeResponse spec_violates_schema_def field_violates_def)

lemma serve_error_dict:
  "serve co (Return_dict [(''error'', v)]) = \<lparr>status_code = 500, body = Internal_server_error\<rparr>"
  using validate_error_dict [of co v] by (auto simp: isl_def)

lemma operation_cases:
  "(\<exists>r. analyze env request = Return_response r
        \<and> analyze_operation env request = \<lparr>status_code = 200, body = Json_response r\<rparr>)
   \<or> ((\<forall>r. analyze env request \<noteq> Return_response r)
        \<and> status_code (analyze_operation env request) = 500
        \<and> (\<forall>r. body (analyze_operation env request) \<noteq> Json_response r))"
  using analyze_cases [of env request]
  by (auto simp: analyze_operation_def serve_error_dict simp del: serve.simps(2))

lemma operation_not_response:
  "(\<forall>r. analyze env request \<noteq> Return_response r) \<Longrightarrow>
     status_code (analyze_operation env request) = 500"
  using operation_cases [of env request] by auto

lemma example_parse_not_json:
  "parse_response example_loads (example_response ''not json'')
     = Inr [(''error'', PStr ''Failed to parse model response.''),
            (''details'', PStr ''Expecting value''),
            (''raw_text'', PStr ''not json'')]"
proof -
  have n: "re_search ''not json'' = None" by (simp add: fence_open_def)
  have s: "strip ''not json'' \<noteq> []" by (simp add: strip_eq_Nil isspace_def)
  have l: "example_loads ''not json'' = (Inl ''Expecting value'' :: string + real pyval)"
    by (simp add: example_loads_def example_text_ok_def example_text_tokens_def
          example_text_no_compliance_def example_text_list_def)
  from n s l show ?thesis
    by (simp add: parse_response_def example_response_def extract_json_str_def)
qed

lemma example_stage_facts:
  "gcs_catalog (example_env t) = Inr [(''SKU1'', example_specs)]"
  "fl_isnan (example_env t) = example_isnan"
  "json_loads (example_env t) = example_loads"
  "generate_content (example_env t) u c q = Inr (example_response t)"
  by (simp_all add: example_env_def)

text \<open>
  Claim C1. The \<^verbatim>\<open>/analyze\<close> operation answers with status 200 only if the handler
  returned a validated \<open>AnalyzeResponse\<close>, which is then the body; every other reply has
  status 500 and a body that is no \<open>AnalyzeResponse\<close>. In particular the status is 500
  when the SKU is absent from the catalog, when the product spec has no image reference,
  when a requested context document cannot be loaded, when the model gateway fails (it
  raises, or returns a mapping with the key \<open>error\<close>), and when the model output violates
  the schema. The dicts with the single key \<open>error\<close> that the handler returns in the
  first three cases do not reach the client with status 200: they fail the validation
  against the route's response model. When every stage succeeds and the handler's last step returns
  a response, the reply is that response with status 200.
\<close>

theorem failed_request_not_200:
  "(status_code (analyze_operation env request) = 200 \<longrightarrow>
      (\<exists>r. analyze env request = Return_response r
          \<and> body (analyze_operation env request) = Json_response r))
   \<and> (status_code (analyze_operation env request) \<noteq> 200 \<longrightarrow>
        status_code (analyze_operation env request) = 500
        \<and> (\<forall>r. body (analyze_operation env request) \<noteq> Json_response r))
   \<and> (\<forall>cat. gcs_catalog env = Inr cat \<and> map_of cat (sku request) = None \<longrightarrow>
        status_code (analyze_operation env request) = 500)
   \<and> (\<forall>cat specs. gcs_catalog env = Inr cat \<and> map_of cat (sku request) = Some specs
          \<and> \<not> truthy (fl_is_zero env) (dict_get specs ''image_gcs_uri'' SNone) \<longrightarrow>
        status_code (analyze_operation env request) = 500)
   \<and> (\<forall>cat specs i m. gcs_catalog env = Inr cat \<and> map_of cat (sku request) = Some specs
          \<and> truthy (fl_is_zero env) (dict_get specs ''image_gcs_uri'' SNone)
          \<and> i \<in> set (context_ids request) \<and> gcs_context env i = Inl m \<longrightarrow>
        status_code (analyze_operation env request) = 500)
   \<and> (\<forall>cat specs uri contexts c. gcs_catalog env = Inr cat
          \<and> analyze_load env request cat = Inr (specs, uri, contexts)
          \<and> compose_context_card (fl_isnan env) specs contexts = Inr c
          \<and> (case query_gemini (json_loads env) (generate_content env) uri c
                     (question_or_default (question request)) of
                Inl e \<Rightarrow> True
              | Inr mr \<Rightarrow> has_key mr ''error'') \<longrightarrow>
        status_code (analyze_operation env request) = 500)
   \<and> (\<forall>cat specs uri contexts c mr. gcs_catalog env = Inr cat
          \<and> analyze_load env request cat = Inr (specs, uri, contexts)
          \<and> compose_context_card (fl_isnan env) specs contexts = Inr c
          \<and> query_gemini (json_loads env) (generate_content env) uri c
                     (question_or_default (question request)) = Inr mr
          \<and> spec_violates_schema (pydantic env) mr \<longrightarrow>
        status_code (analyze_operation env request) = 500)
   \<and> (\<forall>cat specs uri contexts c mr r. gcs_catalog env = Inr cat
          \<and> analyze_load env request cat = Inr (specs, uri, contexts)
          \<and> compose_context_card (fl_isnan env) specs contexts = Inr c
          \<and> query_gemini (json_loads env) (generate_content env) uri c
                     (question_or_default (question request)) = Inr mr
          \<and> analyze_respond env mr = Return_response r \<longrightarrow>
        analyze_operation env request = \<lparr>status_code = 200, body = Json_response r\<rparr>)"
proof (intro conjI allI impI)
  assume "status_code (analyze_operation env request) = 200"
  with operation_cases [of env request]
  show "\<exists>r. analyze env request = Return_response r
          \<and> body (analyze_operation env request) = Json_response r"
    by auto
next
  assume "status_code (analyze_operation env request) \<noteq> 200"
  with operation_cases [of env request]
  show "status_code (analyze_operation env request) = 500" by auto
next
  fix r
  assume "status_code (analyze_operation env request) \<noteq> 200"
  with operation_cases [of env request]
  show "body (analyze_operation env request) \<noteq> Json_response r" by auto
next
  fix cat
  assume "gcs_catalog env = Inr cat \<and> map_of cat (sku request) = None"
  then have "\<forall>r. analyze env request \<noteq> Return_response r"
    by (simp add: analyze_unknown_sku)
  then show "status_code (analyze_operation env request) = 500"
    by (rule operation_not_response)
next
  fix cat specs
  assume "gcs_catalog env = Inr cat \<and> map_of cat (sku request) = Some specs
          \<and> \<not> truthy (fl_is_zero env) (dict_get specs ''image_gcs_uri'' SNone)"
  then have "\<forall>r. analyze env request \<noteq> Return_response r"
    by (simp add: analyze_missing_image)
  then show "status_code (analyze_operation env request) = 500"
    by (rule operation_not_response)
next
  fix cat specs i m
  assume h: "gcs_catalog env = Inr cat \<and> map_of cat (sku request) = Some specs
          \<and> truthy (fl_is_zero env) (dict_get specs ''image_gcs_uri'' SNone)
          \<and> i \<in> set (context_ids request) \<and> gcs_context env i = Inl m"
  then obtain m' where "analyze env request = Return_dict [(''error'', PStr m')]"
    using analyze_context_not_found [of env cat request specs i m] by auto
  then have "\<forall>r. analyze env request \<noteq> Return_response r" by simp
  then show "status_code (analyze_operation env request) = 500"
    by (rule operation_not_response)
next
  fix cat specs uri contexts c
  assume h: "gcs_catalog env = Inr cat
          \<and> analyze_load env request cat = Inr (specs, uri, contexts)
          \<and> compose_context_card (fl_isnan env) specs contexts = Inr c
          \<and> (case query_gemini (json_loads env) (generate_content env) uri c
                     (question_or_default (question request)) of
                Inl e \<Rightarrow> True
              | Inr mr \<Rightarrow> has_key mr ''error'')"
  then have "analyze env request =
           (case query_gemini (json_loads env) (generate_content env) uri c
                   (question_or_default (question request)) of
              Inl e \<Rightarrow> Raise_uncaught e
            | Inr mr \<Rightarrow> analyze_respond env mr)"
    using analyze_stages_query [of env cat request specs uri contexts c] by simp
  with h have "\<forall>r. analyze env request \<noteq> Return_response r"
    by (auto simp: analyze_respond_gateway_failure split: sum.splits)
  then show "status_code (analyze_operation env request) = 500"
    by (rule operation_not_response)
next
  fix cat specs uri contexts c mr
  assume h: "gcs_catalog env = Inr cat
          \<and> analyze_load env request cat = Inr (specs, uri, contexts)
          \<and> compose_context_card (fl_isnan env) specs contexts = Inr c
          \<and> query_gemini (json_loads env) (generate_content env) uri c
                     (question_or_default (question request)) = Inr mr
          \<and> spec_violates_schema (pydantic env) mr"
  then have a: "analyze env request = analyze_respond env mr"
    using analyze_stages_query [of env cat request specs uri contexts c] by simp
  from h obtain resp where "parse_response (json_loads env) resp = Inr mr"
    by (auto simp: query_gemini_def and_then_eq_Inr)
  from analyze_respond_rejects [OF this] h a
  have "\<forall>r. analyze env request \<noteq> Return_response r" by simp
  then show "status_code (analyze_operation env request) = 500"
    by (rule operation_not_response)
next
  fix cat specs uri contexts c mr r
  assume h: "gcs_catalog env = Inr cat
          \<and> analyze_load env request cat = Inr (specs, uri, contexts)
          \<and> compose_context_card (fl_isnan env) specs contexts = Inr c
          \<and> query_gemini (json_loads env) (generate_content env) uri c
                     (question_or_default (question request)) = Inr mr
          \<and> analyze_respond env mr = Return_response r"
  then have "analyze env request = Return_response r"
    using analyze_stages_query [of env cat request specs uri contexts c] by simp
  then show "analyze_operation env request = \<lparr>status_code = 200, body = Json_response r\<rparr>"
    by (simp add: analyze_operation_def)
qed

theorem failed_request_not_200_witness:
  "status_code (analyze_operation (example_env example_text_ok) (example_request ''SKU1'')) = 200
   \<and> (\<exists>r. analyze (example_env example_text_ok) (example_request ''SKU1'') = Return_response r
          \<and> body (analyze_operation (example_env example_text_ok) (example_request ''SKU1''))
              = Json_response r)
   \<and> status_code (analyze_operation (example_env example_text_ok) (example_request ''SKU9'')) = 500
   \<and> (\<forall>r. body (analyze_operation (example_env example_text_ok) (example_request ''SKU9''))
            \<noteq> Json_response r)
   \<and> status_code (analyze_operation example_env_no_image (example_request ''SKU2'')) = 500
   \<and> status_code (analyze_operation (example_env example_text_ok)
         ((example_request ''SKU1'')\<lparr>context_ids := [''A'', ''Z'']\<rparr>)) = 500
   \<and> status_code (analyze_operation (example_env ''not json'') (example_request ''SKU1'')) = 500
   \<and> status_code (analyze_operation (example_env example_text_no_compliance)
         (example_request ''SKU1'')) = 500"
proof -
  let ?cat = "[(''SKU1'', example_specs)] :: real catalog"
  let ?uri = "SStr ''gs://bucket/sku1.jpg'' :: real scalar"
  let ?ctx = "[(''A'', PDict []), (''B'', PDict [(''brand_voice'', PStr ''X'')])]
                :: (string \<times> real pyval) list"
  let ?card = "\<lparr>product_attributes =
            [(''color'', SStr ''red''), (''size'', SInt 42),
             (''image_gcs_uri'', SStr ''gs://bucket/sku1.jpg'')],
          rules = [], brand_voice = Some (PStr ''X'')\<rparr> :: real context_card"
  \<comment> \<open>the successful request\<close>
  let ?e0 = "example_env example_text_ok" and ?r0 = "example_request ''SKU1'' :: real AnalyzeRequest"
  let ?ok = "\<lparr>answer = ''ok'', grounding = \<lparr>citations = [], visual_refs = []\<rparr>,
        structured = \<lparr>attributes = [], compliance = []\<rparr>,
        diagnostics = \<lparr>latency = 1.23, model = model_name, tokens = 0\<rparr>\<rparr>
        :: real AnalyzeResponse"
  have "analyze_operation ?e0 ?r0 = \<lparr>status_code = 200, body = Json_response ?ok\<rparr>"
    by (rule failed_request_not_200 [of ?e0 ?r0, THEN conjunct2, THEN conjunct2,
          THEN conjunct2, THEN conjunct2, THEN conjunct2, THEN conjunct2, THEN conjunct2,
          rule_format, of ?cat example_specs ?uri ?ctx ?card
            "example_parsed_ok @ [(''diagnostics'', PDict [(''model'', PStr model_name)])]"])
       (simp add: example_stage_facts example_analyze_load example_compose query_gemini_def
          example_parse_ok example_respond_ok)
  then have s0: "status_code (analyze_operation ?e0 ?r0) = 200" by simp
  from failed_request_not_200 [of ?e0 ?r0, THEN conjunct1] s0
  have b0: "\<exists>r. analyze ?e0 ?r0 = Return_response r
          \<and> body (analyze_operation ?e0 ?r0) = Json_response r" by (rule mp)
  \<comment> \<open>unknown SKU\<close>
  let ?r1 = "example_request ''SKU9'' :: real AnalyzeRequest"
  have s1: "status_code (analyze_operation ?e0 ?r1) = 500"
    by (rule failed_request_not_200 [of ?e0 ?r1, THEN conjunct2, THEN conjunct2,
          THEN conjunct1, rule_format, of ?cat])
       (simp add: example_stage_facts example_request_def)
  from s1 have "status_code (analyze_operation ?e0 ?r1) \<noteq> 200" by simp
  with failed_request_not_200 [of ?e0 ?r1, THEN conjunct2, THEN conjunct1]
  have "status_code (analyze_operation ?e0 ?r1) = 500
        \<and> (\<forall>r. body (analyze_operation ?e0 ?r1) \<noteq> Json_response r)" by (rule mp)
  then have b1: "\<forall>r. body (analyze_operation ?e0 ?r1) \<noteq> Json_response r"
    by (rule conjunct2)
  \<comment> \<open>no image reference\<close>
  let ?r2 = "example_request ''SKU2'' :: real AnalyzeRequest"
  have s2: "status_code (analyze_operation example_env_no_image ?r2) = 500"
    by (rule failed_request_not_200 [of example_env_no_image ?r2, THEN conjunct2,
          THEN conjunct2, THEN conjunct2, THEN conjunct1, rule_format,
          of "[(''SKU2'', [(''color'', SStr ''blue'')])]" "[(''color'', SStr ''blue'')]"])
       (simp add: example_env_no_image_def example_request_def dict_get_def)
  \<comment> \<open>a context document that is not there\<close>
  let ?r3 = "(example_request ''SKU1'')\<lparr>context_ids := [''A'', ''Z'']\<rparr> :: real AnalyzeRequest"
  have s3: "status_code (analyze_operation ?e0 ?r3) = 500"
    by (rule failed_request_not_200 [of ?e0 ?r3, THEN conjunct2, THEN conjunct2,
          THEN conjunct2, THEN conjunct2, THEN conjunct1, rule_format,
          of ?cat example_specs "''Z''" "''Could not load context''"])
       (simp add: example_stage_facts example_request_def example_specs_def dict_get_def
          example_env_def example_gcs_def)
  \<comment> \<open>a gateway failure\<close>
  let ?e4 = "example_env ''not json''"
  have s4: "status_code (analyze_operation ?e4 ?r0) = 500"
    by (rule failed_request_not_200 [of ?e4 ?r0, THEN conjunct2, THEN conjunct2,
          THEN conjunct2, THEN conjunct2, THEN conjunct2, THEN conjunct1, rule_format,
          of ?cat example_specs ?uri ?ctx ?card])
       (simp add: example_stage_facts example_analyze_load example_compose query_gemini_def
          example_parse_not_json has_key_def)
  \<comment> \<open>a schema violation\<close>
  let ?e5 = "example_env example_text_no_compliance"
  let ?mr = "[(''answer'', PStr ''ok''),
            (''grounding'', PDict [(''citations'', PList []), (''visual_refs'', PList [])]),
            (''structured'', PDict [(''attributes'', PDict [])]),
            (''diagnostics'', PDict [(''model'', PStr model_name)])] :: real pydict"
  have v: "spec_violates_schema (pydantic ?e5) ?mr"
    by (rule spec_missing_required_violates) (simp add: spec_missing_required_def)
  have s5: "status_code (analyze_operation ?e5 ?r0) = 500"
    by (rule failed_request_not_200 [of ?e5 ?r0, THEN conjunct2, THEN conjunct2,
          THEN conjunct2, THEN conjunct2, THEN conjunct2, THEN conjunct2, THEN conjunct1,
          rule_format, of ?cat example_specs ?uri ?ctx ?card ?mr])
       (simp add: example_stage_facts example_analyze_load example_compose query_gemini_def
          example_parse_no_compliance v)
  from s0 b0 s1 b1 s2 s3 s4 s5 show ?thesis by (intro conjI)
qed

section \<open>The default prompt\<close>

lemma analyze_load_json_loads [simp]:
  "analyze_load (env\<lparr>json_loads := l\<rparr>) request spec_catalog
     = analyze_load env request spec_catalog"
  by (simp add: analyze_load_def Let_def cong: sum.case_cong if_cong)

lemma analyze_respond_json_loads [simp]:
  "analyze_respond (env\<lparr>json_loads := l\<rparr>) mr = analyze_respond env mr"
  by (simp add: analyze_respond_def cong: sum.case_cong if_cong)

lemma example_parse_echo:
  "parse_response (json_loads example_env_echo) (example_response default_question)
     = Inr (example_parsed_ok @ [(''diagnostics'', PDict [(''model'', PStr model_name)])])"
proof -
  have n: "re_search default_question = None"
    by (simp add: default_question_def fence_open_def)
  have s: "strip default_question \<noteq> []"
    by (simp add: strip_eq_Nil default_question_def isspace_def)
  from n s show ?thesis
    by (simp add: parse_response_def example_response_def extract_json_str_def
          example_env_echo_def example_parsed_ok_def)
qed

text \<open>
  Claim C10. When the question of a request is absent or the empty string, and the
  catalog, the product spec, the context documents and the context card are obtained, the
  handler's outcome is that of the model gateway called with the fixed default prompt:
  \<open>default_question\<close> is the question passed to \<open>query_gemini\<close>. Hence a request with an
  empty question ends as the same request without question, and as the same request
  asking the default prompt; the prompt passed is never empty; and the handler's outcome
  does not depend on what the model would answer to an empty question.
\<close>

theorem empty_question_is_default:
  "(\<forall>cat specs uri contexts c.
        (question request = None \<or> question request = Some [])
        \<and> gcs_catalog env = Inr cat
        \<and> analyze_load env request cat = Inr (specs, uri, contexts)
        \<and> compose_context_card (fl_isnan env) specs contexts = Inr c \<longrightarrow>
      analyze env request =
        (case query_gemini (json_loads env) (generate_content env) uri c default_question of
           Inl e \<Rightarrow> Raise_uncaught e
         | Inr mr \<Rightarrow> analyze_respond env mr))
   \<and> analyze env (request\<lparr>question := Some []\<rparr>) = analyze env (request\<lparr>question := None\<rparr>)
   \<and> analyze env (request\<lparr>question := None\<rparr>)
       = analyze env (request\<lparr>question := Some default_question\<rparr>)
   \<and> question_or_default (Some []) = default_question
   \<and> question_or_default (question request) \<noteq> []
   \<and> ((\<forall>uri c q. q \<noteq> [] \<longrightarrow> g uri c q = generate_content env uri c q) \<longrightarrow>
        analyze (env\<lparr>generate_content := g\<rparr>) request = analyze env request)"
proof (intro conjI allI impI)
  fix cat specs uri contexts c
  assume h: "(question request = None \<or> question request = Some [])
        \<and> gcs_catalog env = Inr cat
        \<and> analyze_load env request cat = Inr (specs, uri, contexts)
        \<and> compose_context_card (fl_isnan env) specs contexts = Inr c"
  then have q: "question_or_default (question request) = default_question"
    by (auto simp: question_or_default_def)
  from h analyze_stages_query [of env cat request specs uri contexts c]
  show "analyze env request =
        (case query_gemini (json_loads env) (generate_content env) uri c default_question of
           Inl e \<Rightarrow> Raise_uncaught e
         | Inr mr \<Rightarrow> analyze_respond env mr)"
    by (simp add: q)
next
  show "analyze env (request\<lparr>question := Some []\<rparr>) = analyze env (request\<lparr>question := None\<rparr>)"
    by (rule empty_question_outcomes [THEN conjunct1])
  show "analyze env (request\<lparr>question := None\<rparr>)
       = analyze env (request\<lparr>question := Some default_question\<rparr>)"
    by (rule empty_question_outcomes [THEN conjunct2, THEN conjunct1])
  show "question_or_default (Some []) = default_question"
    by (simp add: question_or_default_def)
  show "question_or_default (question request) \<noteq> []"
    by (rule question_or_default_nonempty)
next
  assume "\<forall>uri c q. q \<noteq> [] \<longrightarrow> g uri c q = generate_content env uri c q"
  with empty_question_outcomes [of env request g, THEN conjunct2, THEN conjunct2,
         THEN conjunct2, THEN conjunct2]
  show "analyze (env\<lparr>generate_content := g\<rparr>) request = analyze env request"
    by (rule mp)
qed

theorem empty_question_is_default_witness:
  "question ((example_request ''SKU1'')\<lparr>question := Some []\<rparr> :: real AnalyzeRequest) = Some []
   \<and> generate_content example_env_echo (SStr ''gs://bucket/sku1.jpg'')
        \<lparr>product_attributes =
            [(''color'', SStr ''red''), (''size'', SInt 42),
             (''image_gcs_uri'', SStr ''gs://bucket/sku1.jpg'')],
          rules = [], brand_voice = Some (PStr ''X'')\<rparr> [] = Inr (example_response [])
   \<and> json_loads example_env_echo [] = Inl ''Expecting value''
   \<and> analyze example_env_echo ((example_request ''SKU1'')\<lparr>question := Some []\<rparr>)
       = Return_response
           \<lparr>answer = ''ok'', grounding = \<lparr>citations = [], visual_refs = []\<rparr>,
            structured = \<lparr>attributes = [], compliance = []\<rparr>,
            diagnostics = \<lparr>latency = 1.23, model = model_name, tokens = 0\<rparr>\<rparr>"
proof -
  let ?r = "(example_request ''SKU1'')\<lparr>question := Some []\<rparr> :: real AnalyzeRequest"
  let ?cat = "[(''SKU1'', example_specs)] :: real catalog"
  let ?uri = "SStr ''gs://bucket/sku1.jpg'' :: real scalar"
  let ?ctx = "[(''A'', PDict []), (''B'', PDict [(''brand_voice'', PStr ''X'')])]
                :: (string \<times> real pyval) list"
  let ?card = "\<lparr>product_attributes =
            [(''color'', SStr ''red''), (''size'', SInt 42),
             (''image_gcs_uri'', SStr ''gs://bucket/sku1.jpg'')],
          rules = [], brand_voice = Some (PStr ''X'')\<rparr> :: real context_card"
  have q: "question ?r = Some []" by simp
  have h: "(question ?r = None \<or> question ?r = Some [])
        \<and> gcs_catalog example_env_echo = Inr ?cat
        \<and> analyze_load example_env_echo ?r ?cat = Inr (example_specs, ?uri, ?ctx)
        \<and> compose_context_card (fl_isnan example_env_echo) example_specs ?ctx = Inr ?card"
    by (simp add: example_env_echo_def example_stage_facts example_analyze_load
          example_compose)
  from empty_question_is_default [of ?r example_env_echo, THEN conjunct1, rule_format, OF h]
  have "analyze example_env_echo ?r =
        (case query_gemini (json_loads example_env_echo) (generate_content example_env_echo)
                ?uri ?card default_question of
           Inl e \<Rightarrow> Raise_uncaught e
         | Inr mr \<Rightarrow> analyze_respond example_env_echo mr)" .
  also have "query_gemini (json_loads example_env_echo) (generate_content example_env_echo)
                ?uri ?card default_question
      = parse_response (json_loads example_env_echo) (example_response default_question)"
    by (simp add: query_gemini_def example_env_echo_def)
  finally have a: "analyze example_env_echo ?r
       = Return_response
           \<lparr>answer = ''ok'', grounding = \<lparr>citations = [], visual_refs = []\<rparr>,
            structured = \<lparr>attributes = [], compliance = []\<rparr>,
            diagnostics = \<lparr>latency = 1.23, model = model_name, tokens = 0\<rparr>\<rparr>"
    by (simp add: example_parse_echo)
       (simp add: example_env_echo_def example_respond_ok)
  have g: "generate_content example_env_echo ?uri ?card [] = Inr (example_response [])"
    by (simp add: example_env_echo_def)
  have l: "json_loads example_env_echo [] = Inl ''Expecting value''"
    by (simp add: example_env_echo_def default_question_def)
  from q g l a show ?thesis by (intro conjI)
qed

end
